theory Spec2Isabelle
  imports Main "HOL-Library.Sublist"
begin

section \<open>Configuration (config/config.go)\<close>

text \<open>
  The configuration structs of \<^verbatim>\<open>config/config.go\<close>. A Go \<^verbatim>\<open>string\<close> is a byte
  sequence, here a \<^typ>\<open>string\<close>. The field \<^verbatim>\<open>Auths\<close> has the Go type
  \<^verbatim>\<open>map[string]*Auth\<close>: a key may be absent, and a present key may hold the nil pointer
  (a JSON \<^verbatim>\<open>null\<close>), so the map is partial and its values are optional.
  The field \<^verbatim>\<open>Domain\<close> is named \<open>DomainName\<close> here, since \<open>Domain\<close> is a constant of HOL.
\<close>

record Auth =
  Username :: string
  PasswordHash :: string

record Route =
  Prefix :: string
  Target :: string
  AuthIDs :: "string list"

record Config =
  Auths :: "string \<rightharpoonup> Auth option"
  DomainName :: string
  Routes :: "Route list"
  SslKeyPath :: string
  SslCertPath :: string
  LetsencryptDir :: string
  HttpAddress :: string
  HttpsAddress :: string

text \<open>
  A Go \<^verbatim>\<open>error\<close> made by \<^verbatim>\<open>fmt.Errorf\<close> is kept as its format string with its
  arguments, unformatted; a run-time panic is a value of its own. A function returning
  \<^verbatim>\<open>error\<close> returns \<^typ>\<open>'a option\<close>, with \<open>None\<close> for \<^verbatim>\<open>nil\<close>.
\<close>

datatype error = Errorf string "string list" | Panic string

text \<open>The inner loop of \<^verbatim>\<open>Validate\<close>: the first auth identifier that is no key of the map.\<close>

fun missing_auth :: "(string \<rightharpoonup> Auth option) \<Rightarrow> string list \<Rightarrow> string option" where
  "missing_auth auths [] = None"
| "missing_auth auths (authID # ids) =
     (case auths authID of
        None \<Rightarrow> Some authID
      | Some _ \<Rightarrow> missing_auth auths ids)"

text \<open>The outer loop of \<^verbatim>\<open>Validate\<close>, over the routes in order.\<close>

fun validate_routes :: "(string \<rightharpoonup> Auth option) \<Rightarrow> Route list \<Rightarrow> error option" where
  "validate_routes auths [] = None"
| "validate_routes auths (route # routes) =
     (case missing_auth auths (AuthIDs route) of
        Some authID \<Rightarrow>
          Some (Errorf ''Auth could not be found in the list of auths for the Route with prefix %s: %#v''
                  [Prefix route, authID])
      | None \<Rightarrow> validate_routes auths routes)"

text \<open>
  \<^verbatim>\<open>useSSL\<close> as the source computes it:
  \<^verbatim>\<open>(cfg.SslCertPath != "" && cfg.SslKeyPath == "") || cfg.LetsencryptDir != ""\<close>.
\<close>

definition useSSL :: "Config \<Rightarrow> bool" where
  "useSSL cfg \<longleftrightarrow>
     (SslCertPath cfg \<noteq> [] \<and> SslKeyPath cfg = []) \<or> LetsencryptDir cfg \<noteq> []"

definition Validate :: "Config \<Rightarrow> error option" where
  "Validate cfg =
     (case validate_routes (Auths cfg) (Routes cfg) of
        Some e \<Rightarrow> Some e
      | None \<Rightarrow>
          if (SslCertPath cfg \<noteq> [] \<and> SslKeyPath cfg = []) \<or>
             (SslCertPath cfg = [] \<and> SslKeyPath cfg \<noteq> [])
          then Some (Errorf ''either both SSL cert and key are empty, or none: %#v and %#v''
                       [SslCertPath cfg, SslKeyPath cfg])
          else if LetsencryptDir cfg \<noteq> [] \<and> SslCertPath cfg \<noteq> []
          then Some (Errorf ''both letsencrypt_dir and ssl_cert_path were specified in cfg: %#v and %#v''
                       [LetsencryptDir cfg, SslCertPath cfg])
          else if LetsencryptDir cfg \<noteq> [] \<and> DomainName cfg = []
          then Some (Errorf ''letsencrypt_dir was specified in cfg, but no domain: %#v''
                       [LetsencryptDir cfg])
          else if useSSL cfg \<and> HttpsAddress cfg = []
          then Some (Errorf ''cfg needs to use SSL, but https_address was not specified'' [])
          else if HttpAddress cfg = []
          then Some (Errorf ''http_address was not specified in cfg'' [])
          else None)"

text \<open>
  The TLS mode that \<^verbatim>\<open>setupServers\<close> selects from a configuration: it builds an HTTPS server
  exactly when \<^verbatim>\<open>cfg.SslCertPath == "" && cfg.LetsencryptDir == ""\<close> is false.
\<close>

definition tls_mode :: "Config \<Rightarrow> bool" where
  "tls_mode cfg \<longleftrightarrow> \<not> (SslCertPath cfg = [] \<and> LetsencryptDir cfg = [])"

text \<open>
  A configuration with a static certificate and key, an HTTP address and no HTTPS address.
\<close>

definition static_cfg_no_https :: Config where
  "static_cfg_no_https =
     \<lparr> Auths = Map.empty, DomainName = [], Routes = [],
       SslKeyPath = ''/etc/ssl/key.pem'', SslCertPath = ''/etc/ssl/cert.pem'',
       LetsencryptDir = [], HttpAddress = '':80'', HttpsAddress = [] \<rparr>"

section \<open>Strings and paths (Go standard library)\<close>

text \<open>\<^verbatim>\<open>strings.HasPrefix(s, prefix)\<close> and \<^verbatim>\<open>strings.TrimPrefix(s, prefix)\<close>.\<close>

definition HasPrefix :: "string \<Rightarrow> string \<Rightarrow> bool" where
  "HasPrefix s p \<longleftrightarrow> prefix p s"

definition TrimPrefix :: "string \<Rightarrow> string \<Rightarrow> string" where
  "TrimPrefix s p = (if HasPrefix s p then drop (length p) s else s)"

text \<open>
  \<^verbatim>\<open>strings.Split(s, sep)\<close> for a separator of one byte: the pieces between the
  separators, a single empty piece for the empty string.
\<close>

fun Split :: "string \<Rightarrow> char \<Rightarrow> string list" where
  "Split [] sep = [[]]"
| "Split (c # cs) sep =
     (if c = sep then [] # Split cs sep
      else (case Split cs sep of
              [] \<Rightarrow> [[c]]
            | w # ws \<Rightarrow> (c # w) # ws))"

text \<open>\<^verbatim>\<open>strings.Join(elems, "/")\<close>.\<close>

fun join_slash :: "string list \<Rightarrow> string" where
  "join_slash [] = []"
| "join_slash [e] = e"
| "join_slash (e # es) = e @ ''/'' @ join_slash es"

text \<open>
  \<^verbatim>\<open>path.Clean\<close>, on the elements between the slashes. One step of its loop reads an
  element: an empty element and \<^verbatim>\<open>.\<close> are dropped; \<^verbatim>\<open>..\<close> removes the last element
  written when there is one that is no leading \<^verbatim>\<open>..\<close>, is kept when the path is not
  rooted, and is dropped at the root; any other element is written. The result is the
  written elements joined with slashes, after the leading slash of a rooted path, and
  \<^verbatim>\<open>.\<close> when nothing was written for a path that is not rooted.
\<close>

definition clean_elem :: "bool \<Rightarrow> string list \<Rightarrow> string \<Rightarrow> string list" where
  "clean_elem rooted out e =
     (if e = [] \<or> e = ''.'' then out
      else if e = ''..'' then
        (if out \<noteq> [] \<and> last out \<noteq> ''..'' then butlast out
         else if \<not> rooted then out @ [''..'']
         else out)
      else out @ [e])"

definition Clean :: "string \<Rightarrow> string" where
  "Clean p =
     (if p = [] then ''.''
      else
        let rooted = (hd p = CHR ''/'');
            out = foldl (clean_elem rooted) [] (Split p (CHR ''/''))
        in if rooted then ''/'' @ join_slash out
           else if out = [] then ''.'' else join_slash out)"

text \<open>
  \<^verbatim>\<open>path.Join\<close>: the elements from the first non-empty one on, joined with slashes and
  cleaned; the empty string when every element is empty.
\<close>

definition Join :: "string list \<Rightarrow> string" where
  "Join elem =
     (case dropWhile (\<lambda>e. e = []) elem of
        [] \<Rightarrow> []
      | es \<Rightarrow> Clean (join_slash es))"

text \<open>\<^verbatim>\<open>filepath.FromSlash\<close> where the separator is the slash (Unix): the identity.\<close>

definition FromSlash :: "string \<Rightarrow> string" where
  "FromSlash p = p"

section \<open>Requests, responses and handlers (main.go)\<close>

text \<open>
  The parts of \<^verbatim>\<open>*http.Request\<close> that the handlers read. \<open>BasicAuth\<close> is the result of
  \<^verbatim>\<open>req.BasicAuth()\<close>: the user name and password of the \<^verbatim>\<open>Authorization\<close> header,
  \<open>None\<close> when the call returns \<^verbatim>\<open>ok == false\<close>.
\<close>

record URL =
  Scheme :: string
  URLHost :: string
  Path :: string
  RawQuery :: string

record Request =
  Method :: string
  URL :: URL
  RemoteAddr :: string
  Host :: string
  RequestURI :: string
  BasicAuth :: "(string \<times> string) option"

text \<open>
  \<^verbatim>\<open>logMessage\<close>. Its fields carry the suffix \<open>_msg\<close> where the name is a field of the
  request or of the route already.
\<close>

record logMessage =
  Method_msg :: string
  URL_msg :: string
  RemoteAddr_msg :: string
  Prefix_msg :: string
  Target_msg :: string
  Error_msg :: string
  StatusCode :: int
  RedirectionURL :: string

text \<open>
  A handler acts on its \<^verbatim>\<open>http.ResponseWriter\<close>, on the two loggers and on the
  \<^verbatim>\<open>*http.Request\<close> it is handed, which its caller still holds. Its run is the sequence
  of these actions, in order: the calls on the writer, the calls of \<^verbatim>\<open>Printf\<close> on a
  logger (kept as the format string with its arguments), and the assignments
  \<^verbatim>\<open>r.URL.Path = p\<close> to the request (\<open>SetURLPath p\<close>).
\<close>

datatype arg = Str string | Msg logMessage | Err error

datatype event =
    SetHeader string string
  | WriteHeader int
  | Write string
  | LogOut string "arg list"
  | LogErr string "arg list"
  | SetURLPath string

text \<open>
  The state of the server's response writer: the header map the handler edits, whether the
  status line has been written, the status and the header that were sent, and the body
  written so far. \<^verbatim>\<open>WriteHeader\<close> sends the status and a snapshot of the header once;
  later calls are ignored. \<^verbatim>\<open>Write\<close> sends status 200 first when no status has been
  written.
\<close>

record Response =
  handlerHeader :: "string \<rightharpoonup> string list"
  wroteHeader :: bool
  status :: int
  sentHeader :: "string \<rightharpoonup> string list"
  body :: string

definition newResponse :: Response where
  "newResponse =
     \<lparr> handlerHeader = Map.empty, wroteHeader = False, status = 0,
       sentHeader = Map.empty, body = [] \<rparr>"

definition writeHeader :: "int \<Rightarrow> Response \<Rightarrow> Response" where
  "writeHeader code w =
     (if wroteHeader w then w
      else w\<lparr> wroteHeader := True, status := code, sentHeader := handlerHeader w \<rparr>)"

fun apply_event :: "event \<Rightarrow> Response \<Rightarrow> Response" where
  "apply_event (SetHeader k v) w = w\<lparr> handlerHeader := (handlerHeader w)(k \<mapsto> [v]) \<rparr>"
| "apply_event (WriteHeader code) w = writeHeader code w"
| "apply_event (Write bs) w = (let w' = writeHeader 200 w in w'\<lparr> body := body w' @ bs \<rparr>)"
| "apply_event (LogOut f as) w = w"
| "apply_event (LogErr f as) w = w"
| "apply_event (SetURLPath p) w = w"

definition respond :: "event list \<Rightarrow> Response \<Rightarrow> Response" where
  "respond evs w = fold apply_event evs w"

text \<open>
  A handler's \<^verbatim>\<open>ServeHTTP(w, req)\<close>: from the request and the state of the writer it is
  handed, the actions it takes.
\<close>

type_synonym handlerFunc = "Request \<Rightarrow> Response \<Rightarrow> event list"

text \<open>
  The request a caller holds after the handler it called has run on it: the handler's
  assignments to \<^verbatim>\<open>URL.Path\<close> have been made.
\<close>

definition assign_step :: "event \<Rightarrow> Request \<Rightarrow> Request" where
  "assign_step ev r = (case ev of SetURLPath p \<Rightarrow> r\<lparr> URL := (URL r)\<lparr> Path := p \<rparr> \<rparr> | _ \<Rightarrow> r)"

definition request_after :: "event list \<Rightarrow> Request \<Rightarrow> Request" where
  "request_after evs r = fold assign_step evs r"

fun is_assignment :: "event \<Rightarrow> bool" where
  "is_assignment (SetURLPath p) = True"
| "is_assignment ev = False"

text \<open>
  The registry of the package \<^verbatim>\<open>auth\<close>, whose source is not part of the files at hand:
  \<^verbatim>\<open>main.go\<close> reads its field \<^verbatim>\<open>All\<close> (here \<open>All_reg\<close>) and calls its method
  \<^verbatim>\<open>Authenticate(username, passw)\<close>, which returns \<^verbatim>\<open>(ok, rejectionMsg, err)\<close>.
\<close>

record Auths_reg =
  All_reg :: bool
  Authenticate :: "string \<Rightarrow> string \<Rightarrow> bool \<times> string \<times> error option"

datatype open_result = Opened | NotExist | OpenFailed

text \<open>
  What the program calls outside its own source, taken as parameters:
  \<^verbatim>\<open>json.Marshal\<close> on a log message, \<^verbatim>\<open>(*url.URL).String\<close>, \<^verbatim>\<open>url.ParseRequestURI\<close>
  (\<open>None\<close> when it returns an error), \<^verbatim>\<open>os.Open\<close> (classified by \<^verbatim>\<open>os.IsNotExist\<close>),
  \<^verbatim>\<open>http.ServeFile\<close>, the reverse proxy made by
  \<^verbatim>\<open>httputil.NewSingleHostReverseProxy\<close>, the digest \<^verbatim>\<open>apr1Md5(password, salt)\<close> of the
  package \<^verbatim>\<open>http-authentication/basic\<close>, bcrypt's comparison of a password with a hash
  of full length, and \<^verbatim>\<open>auth.New\<close>.
\<close>

record env =
  json_Marshal :: "logMessage \<Rightarrow> error + string"
  URL_String :: "URL \<Rightarrow> string"
  ParseRequestURI :: "string \<Rightarrow> URL option"
  os_Open :: "string \<Rightarrow> open_result"
  ServeFile :: "Request \<Rightarrow> string \<Rightarrow> Response \<Rightarrow> event list"
  ReverseProxy_ServeHTTP :: "URL \<Rightarrow> Request \<Rightarrow> Response \<Rightarrow> event list"
  apr1Md5 :: "string \<Rightarrow> string \<Rightarrow> string"
  bcrypt_compare :: "string \<Rightarrow> string \<Rightarrow> error option"
  auth_New :: "(string \<rightharpoonup> Auth option) \<Rightarrow> error + Auths_reg"

text \<open>\<^verbatim>\<open>http.Error(w, msg, code)\<close>.\<close>

definition http_Error :: "string \<Rightarrow> int \<Rightarrow> event list" where
  "http_Error msg code =
     [SetHeader ''Content-Type'' ''text/plain; charset=utf-8'',
      SetHeader ''X-Content-Type-Options'' ''nosniff'',
      WriteHeader code,
      Write (msg @ [CHR 0x0A])]"

definition StatusUnauthorized :: int where "StatusUnauthorized = 401"
definition StatusNotFound :: int where "StatusNotFound = 404"
definition StatusInternalServerError :: int where "StatusInternalServerError = 500"
definition StatusMovedPermanently :: int where "StatusMovedPermanently = 301"

definition newMessage :: "env \<Rightarrow> Request \<Rightarrow> logMessage" where
  "newMessage E req =
     \<lparr> Method_msg = Method req, URL_msg = URL_String E (URL req),
       RemoteAddr_msg = RemoteAddr req, Prefix_msg = [], Target_msg = [],
       Error_msg = [], StatusCode = 0, RedirectionURL = [] \<rparr>"

text \<open>
  The tail every handler of \<^verbatim>\<open>main.go\<close> shares: marshal the message; on failure answer
  500 and log the failure, otherwise print the record on the given logger and go on.
\<close>

definition marshal_failed :: "logMessage \<Rightarrow> error \<Rightarrow> event list" where
  "marshal_failed msg err =
     http_Error ''Failed to JSON-encode log message'' StatusInternalServerError @
     [LogErr ''Failed to JSON-encode log message %#v: %s'' [Msg msg, Err err]]"

subsection \<open>The file server\<close>

text \<open>The path \<^verbatim>\<open>fileServer.ServeHTTP\<close> opens and serves, from the root and \<^verbatim>\<open>r.URL.Path\<close>.\<close>

definition fileServer_name :: "string \<Rightarrow> string \<Rightarrow> string" where
  "fileServer_name root urlPath =
     (let upath = (if \<not> HasPrefix urlPath ''/'' then ''/'' @ urlPath else urlPath);
          upath = Clean upath
      in Join [root, FromSlash upath])"

text \<open>
  The handler assigns the path with the slash in front to \<^verbatim>\<open>r.URL.Path\<close> when the path
  has none, before it opens the file.
\<close>

definition fileServer_assign :: "Request \<Rightarrow> event list" where
  "fileServer_assign r =
     (if \<not> HasPrefix (Path (URL r)) ''/'' then [SetURLPath (''/'' @ Path (URL r))] else [])"

definition fileServer_ServeHTTP :: "env \<Rightarrow> string \<Rightarrow> handlerFunc" where
  "fileServer_ServeHTTP E root r w =
     (let r' = request_after (fileServer_assign r) r;
          name = fileServer_name root (Path (URL r))
      in fileServer_assign r @
         (case os_Open E name of
            NotExist \<Rightarrow> http_Error ''File not found'' StatusNotFound
          | _ \<Rightarrow> ServeFile E r' name w))"

subsection \<open>The logging handler\<close>

text \<open>
  \<^verbatim>\<open>loggingResponseWriter\<close> starts with \<^verbatim>\<open>statusCode: 0\<close>; its \<^verbatim>\<open>WriteHeader\<close> stores the
  code and passes the call on; every other method is the embedded writer's own. After the
  wrapped handler's calls the field holds the code of the last \<^verbatim>\<open>WriteHeader\<close>. The
  message is made from the request after the wrapped handler has run on it.
\<close>

definition lrw_step :: "event \<Rightarrow> int \<Rightarrow> int" where
  "lrw_step ev statusCode = (case ev of WriteHeader code \<Rightarrow> code | _ \<Rightarrow> statusCode)"

definition lrw_statusCode :: "event list \<Rightarrow> int" where
  "lrw_statusCode evs = fold lrw_step evs 0"

definition loggingHandler_ServeHTTP :: "env \<Rightarrow> string \<Rightarrow> string \<Rightarrow> handlerFunc \<Rightarrow> handlerFunc" where
  "loggingHandler_ServeHTTP E pfx target handler req w =
     (let evs = handler req w;
          msg = (newMessage E (request_after evs req))
                  \<lparr> Prefix_msg := pfx, Target_msg := target,
                    StatusCode := lrw_statusCode evs \<rparr>
      in evs @
         (case json_Marshal E msg of
            Inl err \<Rightarrow> marshal_failed msg err
          | Inr bb \<Rightarrow> [LogOut (''%s'' @ [CHR 0x0A]) [Str bb]]))"

subsection \<open>Password verification (previous revision of main.go)\<close>

text \<open>
  \<^verbatim>\<open>strings.SplitN(s, sep, 2)\<close> for a separator of one byte: the text before the first
  separator and the text after it, or the whole string when it has no separator.
\<close>

definition SplitN2 :: "string \<Rightarrow> char \<Rightarrow> string list" where
  "SplitN2 s sep =
     (if sep \<in> set s
      then [takeWhile (\<lambda>c. c \<noteq> sep) s, tl (dropWhile (\<lambda>c. c \<noteq> sep) s)]
      else [s])"

text \<open>
  \<^verbatim>\<open>AcceptMd5\<close> of the package \<^verbatim>\<open>http-authentication/basic\<close>: \<^verbatim>\<open>(nil, nil)\<close> for a
  hash without the prefix \<^verbatim>\<open>$apr1$\<close>; otherwise the salt and the digest around the next
  \<^verbatim>\<open>$\<close>, or an error when there is none. Its \<^verbatim>\<open>MatchesPassword\<close> compares the digest
  of the password under the salt with the stored one.
\<close>

definition AcceptMd5 :: "string \<Rightarrow> error + (string \<times> string) option" where
  "AcceptMd5 src =
     (if \<not> HasPrefix src ''$apr1$'' then Inr None
      else
        (case SplitN2 (TrimPrefix src ''$apr1$'') (CHR ''$'') of
           [salt, hashed] \<Rightarrow> Inr (Some (salt, hashed))
         | _ \<Rightarrow> Inl (Errorf ''malformed md5 password: %s'' [src])))"

definition MatchesPassword :: "env \<Rightarrow> string \<times> string \<Rightarrow> string \<Rightarrow> bool" where
  "MatchesPassword E m pw \<longleftrightarrow> apr1Md5 E pw (fst m) = snd m"

text \<open>
  \<^verbatim>\<open>bcrypt.CompareHashAndPassword\<close>: a hash shorter than the minimal hash size of 59
  bytes is refused with \<^verbatim>\<open>ErrHashTooShort\<close> before anything is compared.
\<close>

definition ErrHashTooShort :: error where
  "ErrHashTooShort = Errorf ''crypto/bcrypt: hashedSecret too short to be a bcrypted password'' []"

definition CompareHashAndPassword :: "env \<Rightarrow> string \<Rightarrow> string \<Rightarrow> error option" where
  "CompareHashAndPassword E hashedPassword password =
     (if length hashedPassword < 59 then Some ErrHashTooShort
      else bcrypt_compare E hashedPassword password)"

text \<open>
  The loop of \<^verbatim>\<open>authHandler.ServeHTTP\<close> over \<^verbatim>\<open>h.auths\<close>: the final value of \<^verbatim>\<open>ok\<close>
  and what the loop printed on the error logger. \<^verbatim>\<open>continue\<close> is the recursive call,
  \<^verbatim>\<open>break\<close> returns.
\<close>

fun auth_loop :: "env \<Rightarrow> string \<Rightarrow> string \<Rightarrow> Auth list \<Rightarrow> bool \<times> event list" where
  "auth_loop E username passw [] = (False, [])"
| "auth_loop E username passw (auth # auths) =
     (if username \<noteq> Username auth then auth_loop E username passw auths
      else
        (case AcceptMd5 (PasswordHash auth) of
           Inl err \<Rightarrow>
             (let (ok, evs) = auth_loop E username passw auths
              in (ok, LogErr ''Failed to parse the password hash: %#v: %s''
                        [Str (PasswordHash auth), Err err] # evs))
         | Inr (Some md5) \<Rightarrow>
             (if MatchesPassword E md5 passw then (True, [])
              else auth_loop E username passw auths)
         | Inr None \<Rightarrow>
             (case CompareHashAndPassword E (PasswordHash auth) passw of
                None \<Rightarrow> (True, [])
              | Some _ \<Rightarrow> auth_loop E username passw auths)))"

subsection \<open>The auth handler\<close>

definition basic_realm :: string where
  "basic_realm = ''Basic realm='' @ [CHR 0x22] @ ''Restricted'' @ [CHR 0x22]"

text \<open>
  The rejection both branches of \<^verbatim>\<open>authHandler.ServeHTTP\<close> spell out: the log record
  with the error text and status 401 on the error logger, the challenge header, and the
  401 by \<^verbatim>\<open>http.Error\<close>.
\<close>

definition unauthorized :: "env \<Rightarrow> Request \<Rightarrow> string \<Rightarrow> string \<Rightarrow> event list" where
  "unauthorized E req errText bodyText =
     (let msg = (newMessage E req)\<lparr> Error_msg := errText, StatusCode := StatusUnauthorized \<rparr>
      in case json_Marshal E msg of
           Inl err \<Rightarrow> marshal_failed msg err
         | Inr bb \<Rightarrow>
             [LogErr (''%s'' @ [CHR 0x0A]) [Str bb],
              SetHeader ''WWW-Authenticate'' basic_realm] @
             http_Error bodyText StatusUnauthorized)"

text \<open>The current revision, which asks the registry of the package \<^verbatim>\<open>auth\<close>.\<close>

definition authHandler_ServeHTTP :: "env \<Rightarrow> Auths_reg \<Rightarrow> handlerFunc \<Rightarrow> handlerFunc" where
  "authHandler_ServeHTTP E auths handler req w =
     (case BasicAuth req of
        None \<Rightarrow> unauthorized E req ''no Auth'' ''No basic Auth provided''
      | Some (username, passw) \<Rightarrow>
          (case Authenticate auths username passw of
             (ok, rejectionMsg, Some err) \<Rightarrow>
               http_Error (''Failed to authenticate the user: '' @ username)
                 StatusInternalServerError @
               [LogErr ''Failed to authenticate the user %s: %s'' [Str username, Err err]]
           | (ok, rejectionMsg, None) \<Rightarrow>
               if \<not> ok
               then unauthorized E req
                      (''Auth not accepted for the user '' @ username @ '': '' @ rejectionMsg)
                      ''Provided basic Auth not accepted''
               else handler req w))"

text \<open>The previous revision, which holds the credentials and runs the loop itself.\<close>

definition authHandler_prev_ServeHTTP :: "env \<Rightarrow> Auth list \<Rightarrow> handlerFunc \<Rightarrow> handlerFunc" where
  "authHandler_prev_ServeHTTP E auths handler req w =
     (case BasicAuth req of
        None \<Rightarrow> unauthorized E req ''no auth'' ''No basic auth provided''
      | Some (username, passw) \<Rightarrow>
          (let (ok, evs) = auth_loop E username passw auths
           in evs @
              (if \<not> ok
               then unauthorized E req (''auth not accepted (user: '' @ username @ '')'')
                      ''Provided basic auth not accepted''
               else handler req w)))"

subsection \<open>Prefix stripping, the fallback and the redirection\<close>

text \<open>
  \<^verbatim>\<open>http.StripPrefix(prefix, h)\<close> is \<^verbatim>\<open>h\<close> itself for the empty prefix. Otherwise its
  handler passes on a copy of the request (with a URL of its own) that has the prefix cut
  from \<^verbatim>\<open>URL.Path\<close>, and answers \<^verbatim>\<open>http.NotFound\<close> when the path does not begin with
  the prefix. What \<^verbatim>\<open>h\<close> assigns to the copy does not reach the request of the caller.
\<close>

definition http_NotFound :: "event list" where
  "http_NotFound = http_Error ''404 page not found'' StatusNotFound"

definition StripPrefix_ServeHTTP :: "string \<Rightarrow> handlerFunc \<Rightarrow> handlerFunc" where
  "StripPrefix_ServeHTTP pfx h r w =
     (let p = TrimPrefix (Path (URL r)) pfx
      in if length p < length (Path (URL r))
         then filter (\<lambda>ev. \<not> is_assignment ev) (h (r\<lparr> URL := (URL r)\<lparr> Path := p \<rparr> \<rparr>) w)
         else http_NotFound)"

text \<open>The function \<^verbatim>\<open>setupRouter\<close> registers for the pattern \<^verbatim>\<open>/\<close>.\<close>

definition notFound_ServeHTTP :: "env \<Rightarrow> handlerFunc" where
  "notFound_ServeHTTP E req w =
     (let msg = (newMessage E req)\<lparr> Error_msg := ''not found'', StatusCode := StatusNotFound \<rparr>
      in case json_Marshal E msg of
           Inl err \<Rightarrow> marshal_failed msg err
         | Inr bb \<Rightarrow>
             LogErr (''%s'' @ [CHR 0x0A]) [Str bb] # http_Error ''Not found'' StatusNotFound)"

text \<open>
  \<^verbatim>\<open>http.Redirect(w, r, url, code)\<close> for a URL that begins with a scheme, as every URL the
  redirection router passes does (the branch for a relative URL is not taken): the
  \<^verbatim>\<open>Location\<close> header holds the URL with every byte from \<^verbatim>\<open>0x80\<close> on percent-escaped;
  when the writer has no \<^verbatim>\<open>Content-Type\<close> yet, GET and HEAD get one and GET gets a short
  HTML body.
\<close>

definition hexdigit :: "nat \<Rightarrow> char" where
  "hexdigit n = ''0123456789abcdef'' ! (n mod 16)"

definition hexEscapeNonASCII :: "string \<Rightarrow> string" where
  "hexEscapeNonASCII s =
     concat (map (\<lambda>c. if (of_char c :: nat) \<ge> 128
                       then [CHR ''%'', hexdigit (of_char c div 16), hexdigit (of_char c)]
                       else [c]) s)"

definition htmlEscape :: "string \<Rightarrow> string" where
  "htmlEscape s =
     concat (map (\<lambda>c. if c = CHR ''&'' then ''&amp;''
                       else if c = CHR ''<'' then ''&lt;''
                       else if c = CHR ''>'' then ''&gt;''
                       else if c = CHR 0x22 then ''&#34;''
                       else if c = CHR 0x27 then ''&#39;''
                       else [c]) s)"

definition http_Redirect :: "Request \<Rightarrow> string \<Rightarrow> int \<Rightarrow> string \<Rightarrow> Response \<Rightarrow> event list" where
  "http_Redirect r url code statusText w =
     (let hadCT = (handlerHeader w ''Content-Type'' \<noteq> None)
      in [SetHeader ''Location'' (hexEscapeNonASCII url)] @
         (if \<not> hadCT \<and> (Method r = ''GET'' \<or> Method r = ''HEAD'')
          then [SetHeader ''Content-Type'' ''text/html; charset=utf-8''] else []) @
         [WriteHeader code] @
         (if \<not> hadCT \<and> Method r = ''GET''
          then [Write (''<a href='' @ [CHR 0x22] @ htmlEscape url @ [CHR 0x22] @ ''>'' @
                       statusText @ ''</a>.'' @ [CHR 0x0A, CHR 0x0A])]
          else []))"

text \<open>
  The URL the redirection router computes. \<^verbatim>\<open>parts[0]\<close> is the first piece of
  \<^verbatim>\<open>strings.Split(req.Host, ":")\<close>, which has at least one piece.
\<close>

definition first_part :: "string list \<Rightarrow> string" where
  "first_part parts = (case parts of [] \<Rightarrow> [] | host # _ \<Rightarrow> host)"

definition redirect_URL :: "string \<Rightarrow> Request \<Rightarrow> string" where
  "redirect_URL httpsAddr req =
     (let pfx =
        (if HasPrefix httpsAddr '':''
         then (let parts = Split (Host req) (CHR '':'');
                   host = first_part parts
               in ''https://'' @ host @ httpsAddr)
         else ''https://'' @ httpsAddr)
      in pfx @ RequestURI req)"

definition redirect_ServeHTTP :: "env \<Rightarrow> string \<Rightarrow> handlerFunc" where
  "redirect_ServeHTTP E httpsAddr req w =
     (let newURL = redirect_URL httpsAddr req;
          msg = (newMessage E req)\<lparr> StatusCode := StatusMovedPermanently,
                                      RedirectionURL := newURL \<rparr>
      in case json_Marshal E msg of
           Inl err \<Rightarrow> marshal_failed msg err
         | Inr bb \<Rightarrow>
             LogOut (''%s'' @ [CHR 0x0A]) [Str bb] #
             http_Redirect req newURL StatusMovedPermanently ''Moved Permanently'' w)"

section \<open>The route table (setupRouter)\<close>

text \<open>
  The handlers \<^verbatim>\<open>setupRouter\<close> builds, as values: the two dispatch targets, the
  decorators around a handler, and the fallback function. \<open>ServeHTTP\<close> runs one.
\<close>

datatype handler =
    FileServer string
  | ReverseProxy URL
  | LoggingHandler string string handler
  | AuthHandler Auths_reg handler
  | AuthHandler_prev "Auth list" handler
  | StripPrefix string handler
  | NotFoundFunc

fun ServeHTTP :: "env \<Rightarrow> handler \<Rightarrow> handlerFunc" where
  "ServeHTTP E (FileServer root) req w = fileServer_ServeHTTP E root req w"
| "ServeHTTP E (ReverseProxy u) req w = ReverseProxy_ServeHTTP E u req w"
| "ServeHTTP E (LoggingHandler pfx target h) req w =
     loggingHandler_ServeHTTP E pfx target (\<lambda>r v. ServeHTTP E h r v) req w"
| "ServeHTTP E (AuthHandler auths h) req w =
     authHandler_ServeHTTP E auths (\<lambda>r v. ServeHTTP E h r v) req w"
| "ServeHTTP E (AuthHandler_prev auths h) req w =
     authHandler_prev_ServeHTTP E auths (\<lambda>r v. ServeHTTP E h r v) req w"
| "ServeHTTP E (StripPrefix pfx h) req w =
     StripPrefix_ServeHTTP pfx (\<lambda>r v. ServeHTTP E h r v) req w"
| "ServeHTTP E NotFoundFunc req w = notFound_ServeHTTP E req w"

definition newFileServer :: "string \<Rightarrow> error + handler" where
  "newFileServer root =
     (if root = [] then Inl (Errorf ''unexpected empty root'' [])
      else Inr (FileServer root))"

definition http_StripPrefix :: "string \<Rightarrow> handler \<Rightarrow> handler" where
  "http_StripPrefix pfx h = (if pfx = [] then h else StripPrefix pfx h)"

text \<open>
  \<^verbatim>\<open>http.ServeMux\<close>: the registered patterns with their handlers, in the order of
  registration. \<^verbatim>\<open>Handle\<close> panics on the empty pattern and on a pattern that is
  registered already.
\<close>

type_synonym ServeMux = "(string \<times> handler) list"

definition mux_Handle :: "ServeMux \<Rightarrow> string \<Rightarrow> handler \<Rightarrow> error + ServeMux" where
  "mux_Handle mux pattern h =
     (if pattern = [] then Inl (Panic ''http: invalid pattern'')
      else if map_of mux pattern \<noteq> None
      then Inl (Panic (''http: multiple registrations for '' @ pattern))
      else Inr (mux @ [(pattern, h)]))"

text \<open>
  The \<^verbatim>\<open>switch\<close> on the target of a route; the two revisions differ in the wording of
  the error only, which is the first argument.
\<close>

definition route_target :: "string \<Rightarrow> env \<Rightarrow> string \<Rightarrow> error + handler" where
  "route_target fmt E target =
     (let parsedURL = ParseRequestURI E target
      in if HasPrefix target ''/'' then newFileServer target
         else (case parsedURL of
                 Some u \<Rightarrow> Inr (ReverseProxy u)
               | None \<Rightarrow> Inl (Errorf fmt [target])))"

subsection \<open>Current revision\<close>

text \<open>
  \<^verbatim>\<open>authMap[authID] = cfg.Auths[authID]\<close> for the identifiers of the route; reading a
  missing key of a Go map gives the nil pointer.
\<close>

definition lookup_auth :: "(string \<rightharpoonup> Auth option) \<Rightarrow> string \<Rightarrow> Auth option" where
  "lookup_auth auths authID = (case auths authID of None \<Rightarrow> None | Some a \<Rightarrow> a)"

definition authMap_of :: "(string \<rightharpoonup> Auth option) \<Rightarrow> string list \<Rightarrow> (string \<rightharpoonup> Auth option)" where
  "authMap_of auths ids = fold (\<lambda>authID m. m(authID \<mapsto> lookup_auth auths authID)) ids Map.empty"

text \<open>The body of the loop up to the handler that is registered for the route.\<close>

definition route_handler :: "env \<Rightarrow> Config \<Rightarrow> Route \<Rightarrow> error + handler" where
  "route_handler E cfg route =
     (case route_target ''does not know how to handle the Route: %s'' E (Target route) of
        Inl err \<Rightarrow> Inl err
      | Inr h \<Rightarrow>
          (let handler = LoggingHandler (Prefix route) (Target route) h
           in case auth_New E (authMap_of (Auths cfg) (AuthIDs route)) of
                Inl err \<Rightarrow> Inl err
              | Inr auths \<Rightarrow>
                  Inr (if \<not> All_reg auths then AuthHandler auths handler else handler)))"

fun setupRouter_loop ::
  "env \<Rightarrow> Config \<Rightarrow> Route list \<Rightarrow> ServeMux \<times> bool \<Rightarrow> error + ServeMux \<times> bool" where
  "setupRouter_loop E cfg [] (router, handledRoot) = Inr (router, handledRoot)"
| "setupRouter_loop E cfg (route # routes) (router, handledRoot) =
     (case route_handler E cfg route of
        Inl err \<Rightarrow> Inl err
      | Inr handler \<Rightarrow>
          (case mux_Handle router (Prefix route) (http_StripPrefix (Prefix route) handler) of
             Inl err \<Rightarrow> Inl err
           | Inr router' \<Rightarrow>
               setupRouter_loop E cfg routes
                 (router', if Prefix route = ''/'' then True else handledRoot)))"

definition setupRouter :: "env \<Rightarrow> Config \<Rightarrow> error + ServeMux" where
  "setupRouter E cfg =
     (case setupRouter_loop E cfg (Routes cfg) ([], False) of
        Inl err \<Rightarrow> Inl err
      | Inr (router, handledRoot) \<Rightarrow>
          if \<not> handledRoot then mux_Handle router ''/'' NotFoundFunc
          else Inr router)"

subsection \<open>Previous revision\<close>

text \<open>
  The loop over \<^verbatim>\<open>route.AuthIDs\<close>: \<^verbatim>\<open>auth.Username\<close> on the nil pointer panics.
\<close>

fun collect_auths ::
  "(string \<rightharpoonup> Auth option) \<Rightarrow> string list \<Rightarrow> Auth list \<times> bool \<Rightarrow> error + Auth list \<times> bool" where
  "collect_auths cfgAuths [] (auths, needsAuth) = Inr (auths, needsAuth)"
| "collect_auths cfgAuths (authID # ids) (auths, needsAuth) =
     (case lookup_auth cfgAuths authID of
        None \<Rightarrow> Inl (Panic ''invalid memory address or nil pointer dereference'')
      | Some auth \<Rightarrow>
          collect_auths cfgAuths ids
            (auths @ [auth], if Username auth \<noteq> [] then True else needsAuth))"

definition route_handler_prev :: "env \<Rightarrow> Config \<Rightarrow> Route \<Rightarrow> error + handler" where
  "route_handler_prev E cfg route =
     (case route_target ''does not know how to handle the route: %s'' E (Target route) of
        Inl err \<Rightarrow> Inl err
      | Inr h \<Rightarrow>
          (let handler = LoggingHandler (Prefix route) (Target route) h
           in case collect_auths (Auths cfg) (AuthIDs route) ([], False) of
                Inl err \<Rightarrow> Inl err
              | Inr (auths, needsAuth) \<Rightarrow>
                  Inr (if needsAuth then AuthHandler_prev auths handler else handler)))"

fun setupRouter_loop_prev :: "env \<Rightarrow> Config \<Rightarrow> Route list \<Rightarrow> ServeMux \<Rightarrow> error + ServeMux" where
  "setupRouter_loop_prev E cfg [] router = Inr router"
| "setupRouter_loop_prev E cfg (route # routes) router =
     (case route_handler_prev E cfg route of
        Inl err \<Rightarrow> Inl err
      | Inr handler \<Rightarrow>
          (case mux_Handle router (Prefix route) (http_StripPrefix (Prefix route) handler) of
             Inl err \<Rightarrow> Inl err
           | Inr router' \<Rightarrow> setupRouter_loop_prev E cfg routes router'))"

definition setupRouter_prev :: "env \<Rightarrow> Config \<Rightarrow> error + ServeMux" where
  "setupRouter_prev E cfg =
     (case setupRouter_loop_prev E cfg (Routes cfg) [] of
        Inl err \<Rightarrow> Inl err
      | Inr router \<Rightarrow> mux_Handle router ''/'' NotFoundFunc)"

section \<open>Notions the properties are stated with\<close>

text \<open>
  A path element that \<^verbatim>\<open>path.Clean\<close> writes as it is: not empty, neither \<^verbatim>\<open>.\<close> nor
  \<^verbatim>\<open>..\<close>, and without a slash.
\<close>

definition plain :: "string \<Rightarrow> bool" where
  "plain e \<longleftrightarrow> e \<noteq> [] \<and> e \<noteq> ''.'' \<and> e \<noteq> ''..'' \<and> CHR ''/'' \<notin> set e"

text \<open>The elements \<^verbatim>\<open>path.Clean\<close> has written at the end of a rooted path.\<close>

definition rooted_elems :: "string \<Rightarrow> string list" where
  "rooted_elems p = foldl (clean_elem True) [] (Split p (CHR ''/''))"

text \<open>
  A cleaned path \<open>name\<close> lies in the directory with the cleaned path \<open>dir\<close>: it is the
  directory itself, or it continues \<open>dir\<close> after a slash.
\<close>

definition within_dir :: "string \<Rightarrow> string \<Rightarrow> bool" where
  "within_dir dir name \<longleftrightarrow>
     name = dir \<or> prefix (if dir = ''/'' then dir else dir @ ''/'') name"

text \<open>Whether a handler chain holds an auth handler.\<close>

fun auth_decorated :: "handler \<Rightarrow> bool" where
  "auth_decorated (AuthHandler auths h) = True"
| "auth_decorated (AuthHandler_prev auths h) = True"
| "auth_decorated (LoggingHandler pfx target h) = auth_decorated h"
| "auth_decorated (StripPrefix pfx h) = auth_decorated h"
| "auth_decorated (FileServer root) = False"
| "auth_decorated (ReverseProxy u) = False"
| "auth_decorated NotFoundFunc = False"

text \<open>
  The password verifies against a credential under the scheme its hash selects: with the
  prefix \<^verbatim>\<open>$apr1$\<close> the salted MD5 digest of a well-formed hash, bcrypt otherwise. A
  candidate grants when its user name is the submitted one and the password verifies.
\<close>

definition password_verifies :: "env \<Rightarrow> Auth \<Rightarrow> string \<Rightarrow> bool" where
  "password_verifies E a pw \<longleftrightarrow>
     (if HasPrefix (PasswordHash a) ''$apr1$''
      then (case AcceptMd5 (PasswordHash a) of
              Inr (Some m) \<Rightarrow> apr1Md5 E pw (fst m) = snd m
            | _ \<Rightarrow> False)
      else CompareHashAndPassword E (PasswordHash a) pw = None)"

definition grants :: "env \<Rightarrow> string \<Rightarrow> string \<Rightarrow> Auth \<Rightarrow> bool" where
  "grants E username pw a \<longleftrightarrow> username = Username a \<and> password_verifies E a pw"

text \<open>
  The records of the candidates with the submitted user name whose \<^verbatim>\<open>$apr1$\<close> hash does
  not parse.
\<close>

definition parse_failure :: "string \<Rightarrow> Auth \<Rightarrow> event list" where
  "parse_failure username a =
     (if username = Username a
      then (case AcceptMd5 (PasswordHash a) of
              Inl err \<Rightarrow> [LogErr ''Failed to parse the password hash: %#v: %s''
                            [Str (PasswordHash a), Err err]]
            | Inr _ \<Rightarrow> [])
      else [])"

definition parse_failures :: "string \<Rightarrow> Auth list \<Rightarrow> event list" where
  "parse_failures username auths = concat (map (parse_failure username) auths)"

text \<open>The codes of the \<^verbatim>\<open>WriteHeader\<close> calls of a run.\<close>

definition WriteHeader_codes :: "event list \<Rightarrow> int list" where
  "WriteHeader_codes evs = concat (map (\<lambda>ev. case ev of WriteHeader code \<Rightarrow> [code] | _ \<Rightarrow> []) evs)"

text \<open>
  A run \<open>evs\<close> on the writer \<open>w\<close> is a rejection with a challenge: the response sent has
  status 401 and the header \<^verbatim>\<open>WWW-Authenticate\<close>, and the error logger got the record
  of a message with a non-empty error text and status 401.
\<close>

definition rejected_401 :: "env \<Rightarrow> Request \<Rightarrow> Response \<Rightarrow> event list \<Rightarrow> bool" where
  "rejected_401 E req w evs \<longleftrightarrow>
     status (respond evs w) = StatusUnauthorized \<and>
     sentHeader (respond evs w) ''WWW-Authenticate'' = Some [basic_realm] \<and>
     (\<exists>errText bb. errText \<noteq> [] \<and>
        json_Marshal E ((newMessage E req)\<lparr> Error_msg := errText,
                                              StatusCode := StatusUnauthorized \<rparr>) = Inr bb \<and>
        LogErr (''%s'' @ [CHR 0x0A]) [Str bb] \<in> set evs)"

text \<open>
  An entry of the router is the registration of a route: the route's prefix (which is not
  empty) with the prefix-stripping handler around the handler built for the route.
\<close>

definition registered :: "env \<Rightarrow> Config \<Rightarrow> Route \<Rightarrow> string \<times> handler \<Rightarrow> bool" where
  "registered E cfg r e \<longleftrightarrow>
     (\<exists>h. route_handler E cfg r = Inr h \<and> e = (Prefix r, StripPrefix (Prefix r) h) \<and> Prefix r \<noteq> [])"

text \<open>Whether an event is a call on a logger.\<close>

fun is_log :: "event \<Rightarrow> bool" where
  "is_log (LogOut f as) = True"
| "is_log (LogErr f as) = True"
| "is_log ev = False"

subsection \<open>Concrete inputs\<close>

text \<open>
  An environment to run the model on concrete inputs: a rendering of the log message, a
  parser that accepts targets with the scheme \<^verbatim>\<open>http\<close>, a file system on which nothing
  exists but \<^verbatim>\<open>/srv/www/a.txt\<close>, a digest that joins salt and password, and a bcrypt
  that accepts no password.
\<close>

definition example_env :: env where
  "example_env =
     \<lparr> json_Marshal = (\<lambda>m. Inr (Method_msg m @ '' '' @ URL_msg m @ '' '' @ Error_msg m)),
       URL_String = Path,
       ParseRequestURI =
         (\<lambda>s. if HasPrefix s ''http://''
               then Some \<lparr> Scheme = ''http'', URLHost = drop 7 s, Path = [], RawQuery = [] \<rparr>
               else None),
       os_Open = (\<lambda>name. if name = ''/srv/www/a.txt'' then Opened else NotExist),
       ServeFile = (\<lambda>r name w. [WriteHeader 200, Write name]),
       ReverseProxy_ServeHTTP = (\<lambda>u r w. [WriteHeader 502]),
       apr1Md5 = (\<lambda>pw salt. salt @ pw),
       bcrypt_compare =
         (\<lambda>h pw. Some (Errorf ''crypto/bcrypt: hashedPassword is not the hash of the given password'' [])),
       auth_New =
         (\<lambda>m. Inr \<lparr> All_reg = (m = Map.empty),
                     Authenticate = (\<lambda>u pw. (False, ''unknown user'', None)) \<rparr>) \<rparr>"

definition example_req :: Request where
  "example_req =
     \<lparr> Method = ''GET'',
       URL = \<lparr> Scheme = [], URLHost = [], Path = ''/o/a.txt'', RawQuery = [] \<rparr>,
       RemoteAddr = ''10.0.0.7:4711'', Host = ''example.com:8080'',
       RequestURI = ''/o/a.txt'', BasicAuth = None \<rparr>"

text \<open>The same request sent to the IPv6 loopback address, port 8080.\<close>

definition ipv6_req :: Request where
  "ipv6_req = example_req\<lparr> Host := ''[::1]:8080'' \<rparr>"

definition everybody :: Auth where
  "everybody = \<lparr> Username = [], PasswordHash = [] \<rparr>"

definition bob :: Auth where
  "bob = \<lparr> Username = ''bob'', PasswordHash = ''$apr1$salt$saltsecret'' \<rparr>"

definition bob_malformed_md5 :: Auth where
  "bob_malformed_md5 = \<lparr> Username = ''bob'', PasswordHash = ''$apr1$nodollar'' \<rparr>"

definition bob_garbage :: Auth where
  "bob_garbage = \<lparr> Username = ''bob'', PasswordHash = ''garbage'' \<rparr>"

definition example_auths :: "string \<rightharpoonup> Auth option" where
  "example_auths = [''everybody'' \<mapsto> Some everybody, ''bob'' \<mapsto> Some bob]"

definition example_cfg :: "Route list \<Rightarrow> Config" where
  "example_cfg routes =
     \<lparr> Auths = example_auths, DomainName = [], Routes = routes,
       SslKeyPath = [], SslCertPath = [], LetsencryptDir = [],
       HttpAddress = '':80'', HttpsAddress = [] \<rparr>"

definition public_route :: Route where
  "public_route = \<lparr> Prefix = ''/o/'', Target = ''/srv/www'', AuthIDs = [''everybody''] \<rparr>"

definition mixed_route :: Route where
  "mixed_route = \<lparr> Prefix = ''/m/'', Target = ''/srv/www'', AuthIDs = [''everybody'', ''bob''] \<rparr>"

definition root_route :: Route where
  "root_route = \<lparr> Prefix = ''/'', Target = ''http://127.0.0.1:8055/'', AuthIDs = [] \<rparr>"

definition bad_route :: Route where
  "bad_route = \<lparr> Prefix = ''/x/'', Target = ''ftp'', AuthIDs = [] \<rparr>"

section \<open>Validation\<close>

lemma Validate_empty_http_address:
  "HttpAddress cfg = [] \<Longrightarrow> Validate cfg \<noteq> None"
  by (simp add: Validate_def split: option.splits)

lemma Validate_letsencrypt_empty_https:
  "LetsencryptDir cfg \<noteq> [] \<Longrightarrow> HttpsAddress cfg = [] \<Longrightarrow> Validate cfg \<noteq> None"
  by (simp add: Validate_def useSSL_def split: option.splits)

lemma useSSL_after_pair_check:
  "\<not> ((SslCertPath cfg \<noteq> [] \<and> SslKeyPath cfg = []) \<or>
      (SslCertPath cfg = [] \<and> SslKeyPath cfg \<noteq> [])) \<Longrightarrow>
   useSSL cfg \<longleftrightarrow> LetsencryptDir cfg \<noteq> []"
  by (auto simp: useSSL_def)

text \<open>
  C2. Validation is claimed to reject every configuration in a TLS mode whose HTTPS bind
  address is empty, in particular one with both \<^verbatim>\<open>ssl_cert_path\<close> and \<^verbatim>\<open>ssl_key_path\<close>
  set. On the code, the configuration \<open>static_cfg_no_https\<close> is in a TLS mode (the servers are
  set up with an HTTPS listener), its HTTPS address is empty, and \<^verbatim>\<open>Validate\<close> returns
  \<^verbatim>\<open>nil\<close>: \<^verbatim>\<open>useSSL\<close> tests the key path for being empty, which the preceding check
  has excluded once the certificate path is set.
\<close>

theorem C2_static_tls_empty_https_accepted:
  "tls_mode static_cfg_no_https \<and> HttpsAddress static_cfg_no_https = [] \<and>
   SslCertPath static_cfg_no_https \<noteq> [] \<and> SslKeyPath static_cfg_no_https \<noteq> [] \<and>
   Validate static_cfg_no_https = None"
  by (simp add: static_cfg_no_https_def tls_mode_def Validate_def useSSL_def)

section \<open>Static files stay under the root\<close>

lemma Split_not_Nil: "Split s c \<noteq> []"
  by (induction s) (auto split: list.splits)

lemma Split_no_sep: "e \<in> set (Split s c) \<Longrightarrow> c \<notin> set e"
proof (induction s arbitrary: e)
  case Nil
  then show ?case by simp
next
  case (Cons a s)
  show ?case
  proof (cases "a = c")
    case True
    with Cons show ?thesis by auto
  next
    case False
    obtain w ws where ws: "Split s c = w # ws"
      using Split_not_Nil [of s c] by (cases "Split s c") auto
    with Cons False show ?thesis by auto
  qed
qed

lemma Split_append_sep: "Split (a @ c # b) c = Split a c @ Split b c"
proof (induction a)
  case Nil
  then show ?case by simp
next
  case (Cons x a)
  obtain w ws where ws: "Split a c = w # ws"
    using Split_not_Nil [of a c] by (cases "Split a c") auto
  with Cons show ?case by (auto split: list.splits)
qed

lemma Split_no_sep_id: "c \<notin> set e \<Longrightarrow> Split e c = [e]"
  by (induction e) auto

lemma Split_join_slash:
  "es \<noteq> [] \<Longrightarrow> \<forall>e\<in>set es. CHR ''/'' \<notin> set e \<Longrightarrow> Split (join_slash es) (CHR ''/'') = es"
proof (induction es rule: join_slash.induct)
  case 1
  then show ?case by simp
next
  case (2 e)
  then show ?case by (simp add: Split_no_sep_id)
next
  case (3 e v va)
  have "Split (e @ CHR ''/'' # join_slash (v # va)) (CHR ''/'')
          = Split e (CHR ''/'') @ Split (join_slash (v # va)) (CHR ''/'')"
    by (rule Split_append_sep)
  with 3 show ?case by (simp add: Split_no_sep_id)
qed

lemma clean_elem_plain:
  "\<forall>x\<in>set out. plain x \<Longrightarrow> CHR ''/'' \<notin> set e \<Longrightarrow> \<forall>x\<in>set (clean_elem True out e). plain x"
  by (auto simp: clean_elem_def plain_def dest: in_set_butlastD)

lemma foldl_clean_elem_plain:
  "\<forall>x\<in>set out. plain x \<Longrightarrow> \<forall>e\<in>set es. CHR ''/'' \<notin> set e \<Longrightarrow>
   \<forall>x\<in>set (foldl (clean_elem True) out es). plain x"
proof (induction es arbitrary: out)
  case Nil
  then show ?case by simp
next
  case (Cons e es)
  from Cons.prems have "\<forall>x\<in>set (clean_elem True out e). plain x"
    by (intro clean_elem_plain) auto
  with Cons show ?case by simp
qed

lemma rooted_elems_plain: "\<forall>x\<in>set (rooted_elems p). plain x"
  unfolding rooted_elems_def
  by (rule foldl_clean_elem_plain) (auto dest: Split_no_sep)

lemma clean_elem_plain_append: "plain e \<Longrightarrow> clean_elem r out e = out @ [e]"
  by (simp add: clean_elem_def plain_def)

lemma foldl_clean_elem_append:
  "\<forall>e\<in>set es. plain e \<Longrightarrow> foldl (clean_elem r) out es = out @ es"
  by (induction es arbitrary: out) (simp_all add: clean_elem_plain_append)

lemma Clean_rooted:
  "HasPrefix p ''/'' \<Longrightarrow> Clean p = ''/'' @ join_slash (rooted_elems p)"
  by (cases p) (auto simp: HasPrefix_def Clean_def rooted_elems_def Let_def)

lemma rooted_elems_Clean:
  assumes "HasPrefix p ''/''"
  shows "rooted_elems (Clean p) = rooted_elems p"
proof -
  let ?A = "rooted_elems p"
  have pl: "\<forall>x\<in>set ?A. plain x" by (rule rooted_elems_plain)
  have "Split (''/'' @ join_slash ?A) (CHR ''/'') = [] # Split (join_slash ?A) (CHR ''/'')"
    by simp
  show ?thesis
  proof (cases "?A = []")
    case True
    then show ?thesis
      using assms by (simp add: Clean_rooted) (simp add: rooted_elems_def clean_elem_def)
  next
    case False
    have "Split (join_slash ?A) (CHR ''/'') = ?A"
      using False pl by (intro Split_join_slash) (auto simp: plain_def)
    then have "rooted_elems (''/'' @ join_slash ?A) = foldl (clean_elem True) [] ?A"
      by (simp add: rooted_elems_def clean_elem_def)
    also have "\<dots> = ?A"
      using pl by (simp add: foldl_clean_elem_append)
    finally show ?thesis using assms by (simp add: Clean_rooted)
  qed
qed

lemma rooted_elems_join:
  assumes "\<forall>x\<in>set B. plain x"
  shows "rooted_elems (root @ CHR ''/'' # CHR ''/'' # join_slash B) = rooted_elems root @ B"
proof -
  have s: "Split (root @ CHR ''/'' # CHR ''/'' # join_slash B) (CHR ''/'')
        = Split root (CHR ''/'') @ [] # Split (join_slash B) (CHR ''/'')"
    using Split_append_sep [of root "CHR ''/''" "CHR ''/'' # join_slash B"] by simp
  have e: "clean_elem True out [] = out" for out
    by (simp add: clean_elem_def)
  show ?thesis
  proof (cases "B = []")
    case True
    then show ?thesis
      unfolding rooted_elems_def s by (simp add: e)
  next
    case False
    have "Split (join_slash B) (CHR ''/'') = B"
      using False assms by (intro Split_join_slash) (auto simp: plain_def)
    then have "rooted_elems (root @ CHR ''/'' # CHR ''/'' # join_slash B)
           = foldl (clean_elem True) (rooted_elems root) B"
      unfolding rooted_elems_def s by (simp add: e)
    also have "\<dots> = rooted_elems root @ B"
      using assms by (simp add: foldl_clean_elem_append)
    finally show ?thesis .
  qed
qed

lemma fileServer_name_elems:
  assumes "HasPrefix root ''/''"
  shows "fileServer_name root urlPath =
           ''/'' @ join_slash (rooted_elems root @
              rooted_elems (if \<not> HasPrefix urlPath ''/'' then ''/'' @ urlPath else urlPath))"
proof -
  let ?u = "if \<not> HasPrefix urlPath ''/'' then ''/'' @ urlPath else urlPath"
  let ?B = "rooted_elems ?u"
  have u: "HasPrefix ?u ''/''" by (simp add: HasPrefix_def)
  have root: "root \<noteq> []" using assms by (auto simp: HasPrefix_def)
  have cu: "Clean ?u = ''/'' @ join_slash ?B" using u by (rule Clean_rooted)
  have "fileServer_name root urlPath = Clean (join_slash [root, ''/'' @ join_slash ?B])"
    using root cu by (simp add: fileServer_name_def Join_def FromSlash_def Let_def)
  also have "\<dots> = Clean (root @ CHR ''/'' # CHR ''/'' # join_slash ?B)" by simp
  also have "\<dots> = ''/'' @ join_slash (rooted_elems (root @ CHR ''/'' # CHR ''/'' # join_slash ?B))"
    using assms by (intro Clean_rooted) (auto simp: HasPrefix_def)
  also have "rooted_elems (root @ CHR ''/'' # CHR ''/'' # join_slash ?B) = rooted_elems root @ ?B"
    by (rule rooted_elems_join) (rule rooted_elems_plain)
  finally show ?thesis .
qed

lemma join_slash_append:
  "A \<noteq> [] \<Longrightarrow> B \<noteq> [] \<Longrightarrow> join_slash (A @ B) = join_slash A @ ''/'' @ join_slash B"
  by (induction A rule: join_slash.induct) (auto simp: neq_Nil_conv)

lemma join_slash_Nil: "\<forall>x\<in>set A. x \<noteq> [] \<Longrightarrow> join_slash A = [] \<longleftrightarrow> A = []"
  by (induction A rule: join_slash.induct) auto

lemma within_dir_join:
  assumes "\<forall>x\<in>set A. x \<noteq> []"
  shows "within_dir (''/'' @ join_slash A) (''/'' @ join_slash (A @ B))"
proof (cases "A = [] \<or> B = []")
  case True
  then show ?thesis by (auto simp: within_dir_def)
next
  case False
  then have "join_slash A \<noteq> []"
    using assms by (simp add: join_slash_Nil)
  then show ?thesis using False by (simp add: within_dir_def join_slash_append)
qed

lemma route_target_FileServer:
  "route_target fmt E target = Inr (FileServer root) \<Longrightarrow> root = target \<and> HasPrefix root ''/''"
  by (auto simp: route_target_def newFileServer_def Let_def split: if_splits option.splits)

lemma fileServer_name_within:
  assumes "HasPrefix root ''/''"
  shows "within_dir (Clean root) (fileServer_name root urlPath)"
proof -
  let ?A = "rooted_elems root"
  let ?B = "rooted_elems (if \<not> HasPrefix urlPath ''/'' then ''/'' @ urlPath else urlPath)"
  have n: "fileServer_name root urlPath = ''/'' @ join_slash (?A @ ?B)"
    using assms by (rule fileServer_name_elems)
  have c: "Clean root = ''/'' @ join_slash ?A"
    using assms by (rule Clean_rooted)
  have "\<forall>x\<in>set ?A. plain x" by (rule rooted_elems_plain)
  then show ?thesis
    unfolding n c by (intro within_dir_join) (auto simp: plain_def)
qed

lemma fileServer_name_no_dotdot:
  assumes "HasPrefix root ''/''"
  shows "''..'' \<notin> set (Split (fileServer_name root urlPath) (CHR ''/''))"
proof -
  let ?A = "rooted_elems root"
  let ?B = "rooted_elems (if \<not> HasPrefix urlPath ''/'' then ''/'' @ urlPath else urlPath)"
  have n: "fileServer_name root urlPath = ''/'' @ join_slash (?A @ ?B)"
    using assms by (rule fileServer_name_elems)
  have pl: "\<forall>x\<in>set (?A @ ?B). plain x"
    using rooted_elems_plain [of root] rooted_elems_plain [of "if \<not> HasPrefix urlPath ''/'' then ''/'' @ urlPath else urlPath"]
    by auto
  have "set (Split (''/'' @ join_slash (?A @ ?B)) (CHR ''/'')) \<subseteq> insert [] (set (?A @ ?B))"
  proof (cases "?A @ ?B = []")
    case True
    then show ?thesis by simp
  next
    case False
    have "Split (join_slash (?A @ ?B)) (CHR ''/'') = ?A @ ?B"
      using False pl by (intro Split_join_slash) (auto simp: plain_def)
    then show ?thesis by simp
  qed
  then show ?thesis
    unfolding n using pl by (auto simp: plain_def)
qed

lemma fileServer_ServeHTTP_cases:
  "fileServer_ServeHTTP E root r w =
     fileServer_assign r @ http_Error ''File not found'' StatusNotFound \<or>
   (\<exists>r'. fileServer_ServeHTTP E root r w =
      fileServer_assign r @ ServeFile E r' (fileServer_name root (Path (URL r))) w)"
  by (cases "os_Open E (fileServer_name root (Path (URL r)))")
     (auto simp: fileServer_ServeHTTP_def Let_def)

text \<open>
  C3. For the file server of a route (its root is the route's target, which begins with a
  slash) and every request path: the path the handler opens and serves, obtained by
  putting a slash in front where there is none, cleaning, and joining under the root,
  lies in the root directory (it is the cleaned root or continues it after a slash) and
  has no \<^verbatim>\<open>..\<close> element left; after its assignment to the request's path, if any, the
  handler answers 404 or serves exactly that path.
\<close>

theorem C3_fileServer_within_root:
  assumes "route_target fmt E target = Inr (FileServer root)"
  shows "within_dir (Clean root) (fileServer_name root urlPath) \<and>
         ''..'' \<notin> set (Split (fileServer_name root urlPath) (CHR ''/'')) \<and>
         (fileServer_ServeHTTP E root r w =
            fileServer_assign r @ http_Error ''File not found'' StatusNotFound \<or>
          (\<exists>r'. fileServer_ServeHTTP E root r w =
                   fileServer_assign r @
                   ServeFile E r' (fileServer_name root (Path (URL r))) w))"
proof -
  from assms have "HasPrefix root ''/''"
    by (simp add: route_target_FileServer)
  then show ?thesis
    by (simp add: fileServer_name_within fileServer_name_no_dotdot fileServer_ServeHTTP_cases)
qed

theorem C3_fileServer_within_root_witness:
  "route_target ''%s'' example_env ''/srv/www'' = Inr (FileServer ''/srv/www'') \<and>
   fileServer_name ''/srv/www'' ''../../etc/passwd'' = ''/srv/www/etc/passwd'' \<and>
   Clean ''/srv/www'' = ''/srv/www'' \<and>
   within_dir (Clean ''/srv/www'') (fileServer_name ''/srv/www'' ''../../etc/passwd'')"
proof -
  have t: "route_target ''%s'' example_env ''/srv/www'' = Inr (FileServer ''/srv/www'')"
    by (simp add: route_target_def newFileServer_def HasPrefix_def)
  have n: "fileServer_name ''/srv/www'' ''../../etc/passwd'' = ''/srv/www/etc/passwd''"
    by (simp add: fileServer_name_def Join_def FromSlash_def Clean_def clean_elem_def HasPrefix_def)
  have c: "Clean ''/srv/www'' = ''/srv/www''"
    by (simp add: Clean_def clean_elem_def)
  from C3_fileServer_within_root [OF t, of "''../../etc/passwd''"] t n c show ?thesis
    by simp
qed

section \<open>The response writer and the logging handler\<close>

lemma fold_lrw_step:
  "fold lrw_step evs sc =
     (if WriteHeader_codes evs = [] then sc else last (WriteHeader_codes evs))"
proof (induction evs arbitrary: sc)
  case Nil
  then show ?case by (simp add: WriteHeader_codes_def)
next
  case (Cons ev evs)
  then show ?case
    by (cases ev) (simp_all add: WriteHeader_codes_def lrw_step_def)
qed

lemma lrw_statusCode_last:
  "lrw_statusCode evs =
     (if WriteHeader_codes evs = [] then 0 else last (WriteHeader_codes evs))"
  by (simp add: lrw_statusCode_def fold_lrw_step)

lemma respond_Nil [simp]: "respond [] w = w"
  by (simp add: respond_def)

lemma respond_Cons [simp]: "respond (ev # evs) w = respond evs (apply_event ev w)"
  by (simp add: respond_def)

lemma respond_append: "respond (xs @ ys) w = respond ys (respond xs w)"
  by (simp add: respond_def)

lemma apply_event_wrote:
  "wroteHeader w \<Longrightarrow>
   wroteHeader (apply_event ev w) \<and> status (apply_event ev w) = status w \<and>
   sentHeader (apply_event ev w) = sentHeader w"
  by (cases ev) (simp_all add: writeHeader_def Let_def)

lemma respond_wrote:
  "wroteHeader w \<Longrightarrow>
   wroteHeader (respond evs w) \<and> status (respond evs w) = status w \<and>
   sentHeader (respond evs w) = sentHeader w"
proof (induction evs arbitrary: w)
  case Nil
  then show ?case by simp
next
  case (Cons ev evs)
  from apply_event_wrote [OF Cons.prems, of ev] Cons.IH [of "apply_event ev w"]
  show ?case by simp
qed

lemma respond_Write_only:
  "\<not> wroteHeader w \<Longrightarrow> WriteHeader_codes evs = [] \<Longrightarrow> Write bs \<in> set evs \<Longrightarrow>
   status (respond evs w) = 200"
proof (induction evs arbitrary: w)
  case Nil
  then show ?case by simp
next
  case (Cons ev evs)
  show ?case
  proof (cases ev)
    case (Write cs)
    have "wroteHeader (apply_event ev w)" "status (apply_event ev w) = 200"
      using Cons.prems(1) Write by (simp_all add: writeHeader_def Let_def)
    then show ?thesis using respond_wrote [of "apply_event ev w" evs] by simp
  next
    case (WriteHeader c)
    with Cons.prems show ?thesis by (simp add: WriteHeader_codes_def)
  next
    case (SetHeader k v)
    with Cons.prems Cons.IH [of "apply_event ev w"] show ?thesis
      by (simp add: WriteHeader_codes_def)
  next
    case (LogOut f as)
    with Cons.prems Cons.IH [of "apply_event ev w"] show ?thesis
      by (simp add: WriteHeader_codes_def)
  next
    case (LogErr f as)
    with Cons.prems Cons.IH [of "apply_event ev w"] show ?thesis
      by (simp add: WriteHeader_codes_def)
  next
    case (SetURLPath p)
    with Cons.prems Cons.IH [of "apply_event ev w"] show ?thesis
      by (simp add: WriteHeader_codes_def)
  qed
qed

lemma request_after_Nil [simp]: "request_after [] r = r"
  by (simp add: request_after_def)

lemma request_after_Cons [simp]:
  "request_after (ev # evs) r = request_after evs (assign_step ev r)"
  by (simp add: request_after_def)

lemma request_after_no_assignment:
  "\<forall>ev\<in>set evs. \<not> is_assignment ev \<Longrightarrow> request_after evs r = r"
proof (induction evs)
  case Nil
  then show ?case by simp
next
  case (Cons ev evs)
  then show ?case by (cases ev) (simp_all add: assign_step_def)
qed

text \<open>
  C10. When the wrapped handler returns without having called \<^verbatim>\<open>WriteHeader\<close>, the
  intercepting writer still holds its initial status 0, and the record the logging handler
  makes from the request the handler leaves, marshals and prints on success has
  \<^verbatim>\<open>status_code\<close> 0; this is so even when the handler has written a body, for which the
  server has sent status 200.
\<close>

theorem C10_status_code_zero:
  assumes "WriteHeader_codes (handler req w) = []"
  shows "lrw_statusCode (handler req w) = 0 \<and>
         loggingHandler_ServeHTTP E pfx target handler req w =
           handler req w @
           (let msg = (newMessage E (request_after (handler req w) req))
                        \<lparr> Prefix_msg := pfx, Target_msg := target, StatusCode := 0 \<rparr>
            in case json_Marshal E msg of
                 Inl err \<Rightarrow> marshal_failed msg err
               | Inr bb \<Rightarrow> [LogOut (''%s'' @ [CHR 0x0A]) [Str bb]]) \<and>
         (\<not> wroteHeader w \<and> (\<exists>bs. Write bs \<in> set (handler req w)) \<longrightarrow>
            status (respond (handler req w) w) = 200)"
proof -
  have z: "lrw_statusCode (handler req w) = 0"
    using assms by (simp add: lrw_statusCode_last)
  have l: "loggingHandler_ServeHTTP E pfx target handler req w =
           handler req w @
           (let msg = (newMessage E (request_after (handler req w) req))
                        \<lparr> Prefix_msg := pfx, Target_msg := target, StatusCode := 0 \<rparr>
            in case json_Marshal E msg of
                 Inl err \<Rightarrow> marshal_failed msg err
               | Inr bb \<Rightarrow> [LogOut (''%s'' @ [CHR 0x0A]) [Str bb]])"
    unfolding loggingHandler_ServeHTTP_def Let_def z by (rule refl)
  have s: "\<not> wroteHeader w \<and> (\<exists>bs. Write bs \<in> set (handler req w)) \<longrightarrow>
            status (respond (handler req w) w) = 200"
    using assms by (auto intro: respond_Write_only)
  from z l s show ?thesis by blast
qed

theorem C10_status_code_zero_witness:
  "WriteHeader_codes [SetHeader ''Content-Type'' ''text/plain'', Write ''hello''] = [] \<and>
   loggingHandler_ServeHTTP example_env ''/o/'' ''/srv/www''
       (\<lambda>r v. [SetHeader ''Content-Type'' ''text/plain'', Write ''hello'']) example_req newResponse =
     [SetHeader ''Content-Type'' ''text/plain'', Write ''hello'',
      LogOut (''%s'' @ [CHR 0x0A]) [Str ''GET /o/a.txt '']] \<and>
   json_Marshal example_env
       ((newMessage example_env example_req)\<lparr> Prefix_msg := ''/o/'', Target_msg := ''/srv/www'', StatusCode := 0 \<rparr>) =
     Inr ''GET /o/a.txt '' \<and>
   status (respond [SetHeader ''Content-Type'' ''text/plain'', Write ''hello''] newResponse) = 200"
proof -
  have h: "WriteHeader_codes ((\<lambda>r v. [SetHeader ''Content-Type'' ''text/plain'', Write ''hello'']) example_req newResponse) = []"
    by (simp add: WriteHeader_codes_def)
  have m: "json_Marshal example_env
       ((newMessage example_env example_req)\<lparr> Prefix_msg := ''/o/'', Target_msg := ''/srv/www'', StatusCode := 0 \<rparr>) =
     Inr ''GET /o/a.txt ''"
    by (simp add: example_env_def newMessage_def example_req_def)
  have n: "\<not> wroteHeader newResponse" by (simp add: newResponse_def)
  from C10_status_code_zero [OF h, of example_env "''/o/''" "''/srv/www''"] h m n
  show ?thesis by (simp add: Let_def assign_step_def)
qed

section \<open>The auth handler\<close>

lemma respond_logs: "\<forall>ev\<in>set evs. is_log ev \<Longrightarrow> respond evs w = w"
proof (induction evs)
  case Nil
  then show ?case by simp
next
  case (Cons ev evs)
  then show ?case by (cases ev) simp_all
qed

lemma auth_loop_logs: "\<forall>ev\<in>set (snd (auth_loop E u pw auths)). is_log ev"
  by (induction auths)
     (auto split: sum.splits option.splits prod.splits)

lemma unauthorized_events:
  assumes "json_Marshal E ((newMessage E req)\<lparr> Error_msg := errText,
                               StatusCode := StatusUnauthorized \<rparr>) = Inr bb"
  shows "unauthorized E req errText bodyText =
           [LogErr (''%s'' @ [CHR 0x0A]) [Str bb],
            SetHeader ''WWW-Authenticate'' basic_realm] @
           http_Error bodyText StatusUnauthorized"
  using assms by (simp add: unauthorized_def Let_def)

lemma unauthorized_rejected:
  assumes m: "json_Marshal E ((newMessage E req)\<lparr> Error_msg := errText,
                               StatusCode := StatusUnauthorized \<rparr>) = Inr bb"
    and e: "errText \<noteq> []"
    and w: "\<not> wroteHeader w"
    and l: "\<forall>ev\<in>set logs. is_log ev"
  shows "rejected_401 E req w (logs @ unauthorized E req errText bodyText)"
proof -
  let ?evs = "logs @ unauthorized E req errText bodyText"
  have r: "respond ?evs w = respond (unauthorized E req errText bodyText) w"
    using l by (simp add: respond_append respond_logs)
  have u: "respond (unauthorized E req errText bodyText) w =
             respond ([SetHeader ''WWW-Authenticate'' basic_realm] @
                      http_Error bodyText StatusUnauthorized) w"
    by (simp add: unauthorized_events [OF m])
  have s: "status (respond ?evs w) = StatusUnauthorized"
    using w by (simp add: r u http_Error_def writeHeader_def Let_def)
  have h: "sentHeader (respond ?evs w) ''WWW-Authenticate'' = Some [basic_realm]"
    using w by (simp add: r u http_Error_def writeHeader_def Let_def)
  have "LogErr (''%s'' @ [CHR 0x0A]) [Str bb] \<in> set ?evs"
    unfolding unauthorized_events [OF m] by simp
  with s h m e show ?thesis
    unfolding rejected_401_def by blast
qed

text \<open>
  C4. Let marshalling the 401 records of the request succeed and the writer be fresh. In
  both revisions of the auth handler: a request without Basic credentials is rejected with
  a challenge (status 401, the header \<^verbatim>\<open>WWW-Authenticate\<close>, an error-bearing record on the
  error logger), and the run does not depend on the wrapped handler, which is not called;
  a request whose credentials are rejected (the loop of the previous revision ends with
  \<^verbatim>\<open>ok == false\<close>, the registry of the current one returns \<^verbatim>\<open>ok == false\<close> without an
  error) gets the same; when the registry returns an error the wrapped handler is not called
  either; and when the credentials are accepted the run is the wrapped handler's own
  (after what the loop logged).
\<close>

theorem C4_auth_handler_rejects:
  assumes m: "\<forall>errText. \<exists>bb. json_Marshal E ((newMessage E req)\<lparr> Error_msg := errText,
                               StatusCode := StatusUnauthorized \<rparr>) = Inr bb"
    and w: "\<not> wroteHeader w"
  shows
    "(BasicAuth req = None \<longrightarrow>
        rejected_401 E req w (authHandler_prev_ServeHTTP E auths handler req w) \<and>
        rejected_401 E req w (authHandler_ServeHTTP E reg handler req w) \<and>
        (\<forall>handler'. authHandler_prev_ServeHTTP E auths handler' req w =
                     authHandler_prev_ServeHTTP E auths handler req w) \<and>
        (\<forall>handler'. authHandler_ServeHTTP E reg handler' req w =
                     authHandler_ServeHTTP E reg handler req w)) \<and>
     (\<forall>username passw. BasicAuth req = Some (username, passw) \<longrightarrow>
        (if fst (auth_loop E username passw auths)
         then authHandler_prev_ServeHTTP E auths handler req w =
                snd (auth_loop E username passw auths) @ handler req w
         else rejected_401 E req w (authHandler_prev_ServeHTTP E auths handler req w) \<and>
              (\<forall>handler'. authHandler_prev_ServeHTTP E auths handler' req w =
                           authHandler_prev_ServeHTTP E auths handler req w)) \<and>
        (case Authenticate reg username passw of
           (ok, rejectionMsg, None) \<Rightarrow>
             if ok then authHandler_ServeHTTP E reg handler req w = handler req w
             else rejected_401 E req w (authHandler_ServeHTTP E reg handler req w) \<and>
                  (\<forall>handler'. authHandler_ServeHTTP E reg handler' req w =
                               authHandler_ServeHTTP E reg handler req w)
         | (ok, rejectionMsg, Some err) \<Rightarrow>
             (\<forall>handler'. authHandler_ServeHTTP E reg handler' req w =
                          authHandler_ServeHTTP E reg handler req w)))"
proof -
  have rej: "rejected_401 E req w (logs @ unauthorized E req errText bodyText)"
    if "errText \<noteq> []" "\<forall>ev\<in>set logs. is_log ev" for errText bodyText logs
  proof -
    from m obtain bb where "json_Marshal E ((newMessage E req)\<lparr> Error_msg := errText,
                               StatusCode := StatusUnauthorized \<rparr>) = Inr bb"
      by blast
    then show ?thesis by (rule unauthorized_rejected [OF _ that(1) w that(2)])
  qed
  have rej0: "rejected_401 E req w (unauthorized E req errText bodyText)"
    if "errText \<noteq> []" for errText bodyText
    using rej [OF that, of "[]"] by simp
  have none: "BasicAuth req = None \<longrightarrow>
        rejected_401 E req w (authHandler_prev_ServeHTTP E auths handler req w) \<and>
        rejected_401 E req w (authHandler_ServeHTTP E reg handler req w) \<and>
        (\<forall>handler'. authHandler_prev_ServeHTTP E auths handler' req w =
                     authHandler_prev_ServeHTTP E auths handler req w) \<and>
        (\<forall>handler'. authHandler_ServeHTTP E reg handler' req w =
                     authHandler_ServeHTTP E reg handler req w)"
    by (simp add: authHandler_prev_ServeHTTP_def authHandler_ServeHTTP_def rej0)
  have prev: "if fst (auth_loop E username passw auths)
         then authHandler_prev_ServeHTTP E auths handler req w =
                snd (auth_loop E username passw auths) @ handler req w
         else rejected_401 E req w (authHandler_prev_ServeHTTP E auths handler req w) \<and>
              (\<forall>handler'. authHandler_prev_ServeHTTP E auths handler' req w =
                           authHandler_prev_ServeHTTP E auths handler req w)"
    if "BasicAuth req = Some (username, passw)" for username passw
  proof (cases "auth_loop E username passw auths")
    case (Pair ok logs)
    have "\<forall>ev\<in>set logs. is_log ev"
      using auth_loop_logs [of E username passw auths] Pair by simp
    then show ?thesis
      using that Pair by (simp add: authHandler_prev_ServeHTTP_def rej)
  qed
  have cur: "case Authenticate reg username passw of
           (ok, rejectionMsg, None) \<Rightarrow>
             if ok then authHandler_ServeHTTP E reg handler req w = handler req w
             else rejected_401 E req w (authHandler_ServeHTTP E reg handler req w) \<and>
                  (\<forall>handler'. authHandler_ServeHTTP E reg handler' req w =
                               authHandler_ServeHTTP E reg handler req w)
         | (ok, rejectionMsg, Some err) \<Rightarrow>
             (\<forall>handler'. authHandler_ServeHTTP E reg handler' req w =
                          authHandler_ServeHTTP E reg handler req w)"
    if "BasicAuth req = Some (username, passw)" for username passw
    using that
    by (auto simp: authHandler_ServeHTTP_def rej0 split: prod.splits option.splits)
  show ?thesis
    apply (rule conjI)
     apply (rule none)
    apply (intro allI impI conjI)
     apply (erule prev)
    apply (erule cur)
    done
qed


lemma example_marshal_ok:
  "\<forall>errText. \<exists>bb. json_Marshal example_env ((newMessage example_env req)\<lparr> Error_msg := errText,
                               StatusCode := StatusUnauthorized \<rparr>) = Inr bb"
  by (simp add: example_env_def)

lemma auth_loop_bob_wrong: "auth_loop example_env ''bob'' ''wrong'' [bob] = (False, [])"
  by (simp add: bob_def AcceptMd5_def HasPrefix_def TrimPrefix_def SplitN2_def
      MatchesPassword_def example_env_def)

lemma auth_loop_bob_secret: "auth_loop example_env ''bob'' ''secret'' [bob] = (True, [])"
  by (simp add: bob_def AcceptMd5_def HasPrefix_def TrimPrefix_def SplitN2_def
      MatchesPassword_def example_env_def)

theorem C4_auth_handler_rejects_witness:
  "\<not> wroteHeader newResponse \<and> BasicAuth example_req = None \<and>
   rejected_401 example_env example_req newResponse
     (authHandler_prev_ServeHTTP example_env [bob] (\<lambda>r v. [WriteHeader 200]) example_req newResponse) \<and>
   authHandler_prev_ServeHTTP example_env [bob] (\<lambda>r v. [WriteHeader 200]) example_req newResponse =
     [LogErr (''%s'' @ [CHR 0x0A]) [Str ''GET /o/a.txt no auth''],
      SetHeader ''WWW-Authenticate'' basic_realm,
      SetHeader ''Content-Type'' ''text/plain; charset=utf-8'',
      SetHeader ''X-Content-Type-Options'' ''nosniff'',
      WriteHeader 401,
      Write (''No basic auth provided'' @ [CHR 0x0A])] \<and>
   fst (auth_loop example_env ''bob'' ''wrong'' [bob]) = False \<and>
   rejected_401 example_env (example_req\<lparr> BasicAuth := Some (''bob'', ''wrong'') \<rparr>) newResponse
     (authHandler_prev_ServeHTTP example_env [bob] (\<lambda>r v. [WriteHeader 200])
        (example_req\<lparr> BasicAuth := Some (''bob'', ''wrong'') \<rparr>) newResponse) \<and>
   fst (auth_loop example_env ''bob'' ''secret'' [bob]) = True \<and>
   authHandler_prev_ServeHTTP example_env [bob] (\<lambda>r v. [WriteHeader 200])
        (example_req\<lparr> BasicAuth := Some (''bob'', ''secret'') \<rparr>) newResponse = [WriteHeader 200]"
proof -
  let ?h = "\<lambda>(r::Request) (v::Response). [WriteHeader 200]"
  let ?reg = "\<lparr> All_reg = False, Authenticate = (\<lambda>u pw. (False, ''unknown user'', None)) \<rparr>"
  have n: "\<not> wroteHeader newResponse" by (simp add: newResponse_def)
  have b: "BasicAuth example_req = None" by (simp add: example_req_def)
  have 1: "rejected_401 example_env example_req newResponse
     (authHandler_prev_ServeHTTP example_env [bob] ?h example_req newResponse)"
    using C4_auth_handler_rejects [where auths = "[bob]" and handler = ?h and reg = ?reg,
        OF example_marshal_ok n, THEN conjunct1] b by blast
  have 2: "rejected_401 example_env (example_req\<lparr> BasicAuth := Some (''bob'', ''wrong'') \<rparr>) newResponse
     (authHandler_prev_ServeHTTP example_env [bob] ?h
        (example_req\<lparr> BasicAuth := Some (''bob'', ''wrong'') \<rparr>) newResponse)"
  proof -
    let ?r = "example_req\<lparr> BasicAuth := Some (''bob'', ''wrong'') \<rparr>"
    have b2: "BasicAuth ?r = Some (''bob'', ''wrong'')" by simp
    have nf: "\<not> fst (auth_loop example_env ''bob'' ''wrong'' [bob])"
      unfolding auth_loop_bob_wrong by simp
    note t = C4_auth_handler_rejects [where auths = "[bob]" and handler = ?h and reg = ?reg
        and req = ?r, OF example_marshal_ok n, THEN conjunct2, rule_format, OF b2, THEN conjunct1]
    from t nf show ?thesis by (meson)
  qed
  have 3: "authHandler_prev_ServeHTTP example_env [bob] ?h example_req newResponse =
     [LogErr (''%s'' @ [CHR 0x0A]) [Str ''GET /o/a.txt no auth''],
      SetHeader ''WWW-Authenticate'' basic_realm,
      SetHeader ''Content-Type'' ''text/plain; charset=utf-8'',
      SetHeader ''X-Content-Type-Options'' ''nosniff'',
      WriteHeader 401,
      Write (''No basic auth provided'' @ [CHR 0x0A])]"
    by (simp add: authHandler_prev_ServeHTTP_def unauthorized_def example_req_def
        example_env_def newMessage_def http_Error_def StatusUnauthorized_def)
  have 4: "authHandler_prev_ServeHTTP example_env [bob] ?h
        (example_req\<lparr> BasicAuth := Some (''bob'', ''secret'') \<rparr>) newResponse = [WriteHeader 200]"
    unfolding authHandler_prev_ServeHTTP_def by (simp add: auth_loop_bob_secret del: auth_loop.simps)
  have 5: "fst (auth_loop example_env ''bob'' ''wrong'' [bob]) = False"
    unfolding auth_loop_bob_wrong by simp
  have 6: "fst (auth_loop example_env ''bob'' ''secret'' [bob]) = True"
    unfolding auth_loop_bob_secret by simp
  from n b 1 2 3 4 5 6 show ?thesis by blast
qed

section \<open>The redirection responder\<close>

lemma first_part_Split: "first_part (Split s c) = takeWhile (\<lambda>x. x \<noteq> c) s"
proof (induction s)
  case Nil
  then show ?case by (simp add: first_part_def)
next
  case (Cons a s)
  then show ?case
    by (cases "Split s c") (auto simp: first_part_def)
qed

lemma hexEscapeNonASCII_ascii:
  "\<forall>c\<in>set s. (of_char c :: nat) < 128 \<Longrightarrow> hexEscapeNonASCII s = s"
  by (induction s) (simp_all add: hexEscapeNonASCII_def)

lemma http_Redirect_response:
  assumes "\<not> wroteHeader w"
  shows "status (respond (http_Redirect r url code txt w) w) = code \<and>
         sentHeader (respond (http_Redirect r url code txt w) w) ''Location'' =
           Some [hexEscapeNonASCII url]"
  using assms by (simp add: http_Redirect_def writeHeader_def Let_def)

text \<open>
  The URL the redirection responder computes is \<^verbatim>\<open>https://\<close>, then, when the HTTPS
  address begins with a colon, the request's \<^verbatim>\<open>Host\<close> up to its first colon followed by
  that address, and otherwise the address as it is, then the request URI. When the record
  marshals and the writer is fresh, the responder logs the record, whose redirection URL is
  that URL, on the output logger and answers 301 with the URL in \<^verbatim>\<open>Location\<close> (bytes
  from \<^verbatim>\<open>0x80\<close> on percent-escaped, so the URL itself when it is ASCII). The text up
  to the first colon is the host of a \<^verbatim>\<open>Host\<close> header of the form \<^verbatim>\<open>host:port\<close> or
  \<^verbatim>\<open>host\<close> whose host has no colon.
\<close>

lemma redirect_ServeHTTP_run:
  assumes m: "json_Marshal E ((newMessage E req)\<lparr> StatusCode := StatusMovedPermanently,
                 RedirectionURL := redirect_URL httpsAddr req \<rparr>) = Inr bb"
    and w: "\<not> wroteHeader w"
  shows "redirect_URL httpsAddr req =
           (if HasPrefix httpsAddr '':''
            then ''https://'' @ takeWhile (\<lambda>c. c \<noteq> CHR '':'') (Host req) @ httpsAddr @ RequestURI req
            else ''https://'' @ httpsAddr @ RequestURI req) \<and>
         redirect_ServeHTTP E httpsAddr req w =
           LogOut (''%s'' @ [CHR 0x0A]) [Str bb] #
           http_Redirect req (redirect_URL httpsAddr req) 301 ''Moved Permanently'' w \<and>
         status (respond (redirect_ServeHTTP E httpsAddr req w) w) = 301 \<and>
         sentHeader (respond (redirect_ServeHTTP E httpsAddr req w) w) ''Location'' =
           Some [hexEscapeNonASCII (redirect_URL httpsAddr req)] \<and>
         ((\<forall>c\<in>set (redirect_URL httpsAddr req). (of_char c :: nat) < 128) \<longrightarrow>
            sentHeader (respond (redirect_ServeHTTP E httpsAddr req w) w) ''Location'' =
              Some [redirect_URL httpsAddr req]) \<and>
         (\<forall>h p. Host req = h @ '':'' @ p \<and> CHR '':'' \<notin> set h \<longrightarrow>
            takeWhile (\<lambda>c. c \<noteq> CHR '':'') (Host req) = h) \<and>
         (CHR '':'' \<notin> set (Host req) \<longrightarrow>
            takeWhile (\<lambda>c. c \<noteq> CHR '':'') (Host req) = Host req)"
proof -
  let ?u = "redirect_URL httpsAddr req"
  have u: "?u = (if HasPrefix httpsAddr '':''
            then ''https://'' @ takeWhile (\<lambda>c. c \<noteq> CHR '':'') (Host req) @ httpsAddr @ RequestURI req
            else ''https://'' @ httpsAddr @ RequestURI req)"
    by (simp add: redirect_URL_def Let_def first_part_Split)
  have e: "redirect_ServeHTTP E httpsAddr req w =
           LogOut (''%s'' @ [CHR 0x0A]) [Str bb] # http_Redirect req ?u 301 ''Moved Permanently'' w"
    using m by (simp add: redirect_ServeHTTP_def Let_def StatusMovedPermanently_def)
  have r: "respond (redirect_ServeHTTP E httpsAddr req w) w =
           respond (http_Redirect req ?u 301 ''Moved Permanently'' w) w"
    by (simp add: e)
  note h = http_Redirect_response [OF w, of req ?u 301 "''Moved Permanently''"]
  have s: "status (respond (redirect_ServeHTTP E httpsAddr req w) w) = 301"
    using h by (simp only: r)
  have l: "sentHeader (respond (redirect_ServeHTTP E httpsAddr req w) w) ''Location'' =
           Some [hexEscapeNonASCII ?u]"
    using h by (simp only: r)
  have a: "(\<forall>c\<in>set ?u. (of_char c :: nat) < 128) \<longrightarrow>
            sentHeader (respond (redirect_ServeHTTP E httpsAddr req w) w) ''Location'' = Some [?u]"
    using l by (simp add: hexEscapeNonASCII_ascii)
  have hp: "\<forall>h p. Host req = h @ '':'' @ p \<and> CHR '':'' \<notin> set h \<longrightarrow>
            takeWhile (\<lambda>c. c \<noteq> CHR '':'') (Host req) = h"
  proof (intro allI impI)
    fix h p
    assume a: "Host req = h @ '':'' @ p \<and> CHR '':'' \<notin> set h"
    then have "takeWhile (\<lambda>c. c \<noteq> CHR '':'') (h @ CHR '':'' # p) =
                 h @ takeWhile (\<lambda>c. c \<noteq> CHR '':'') (CHR '':'' # p)"
      by (intro takeWhile_append2) auto
    with a show "takeWhile (\<lambda>c. c \<noteq> CHR '':'') (Host req) = h" by simp
  qed
  have hn: "CHR '':'' \<notin> set (Host req) \<longrightarrow>
            takeWhile (\<lambda>c. c \<noteq> CHR '':'') (Host req) = Host req"
    by (auto simp: takeWhile_eq_all_conv)
  from u e s l a hp hn show ?thesis by blast
qed

lemma redirect_ServeHTTP_run_example:
  "\<not> wroteHeader newResponse \<and>
   HasPrefix '':443'' '':'' \<and>
   redirect_URL '':443'' example_req = ''https://example.com:443/o/a.txt'' \<and>
   json_Marshal example_env ((newMessage example_env example_req)\<lparr> StatusCode := StatusMovedPermanently,
       RedirectionURL := redirect_URL '':443'' example_req \<rparr>) = Inr ''GET /o/a.txt '' \<and>
   status (respond (redirect_ServeHTTP example_env '':443'' example_req newResponse) newResponse) = 301 \<and>
   sentHeader (respond (redirect_ServeHTTP example_env '':443'' example_req newResponse) newResponse)
       ''Location'' = Some [''https://example.com:443/o/a.txt''] \<and>
   redirect_URL ''secure.example.org'' example_req = ''https://secure.example.org/o/a.txt''"
proof -
  have n: "\<not> wroteHeader newResponse" by (simp add: newResponse_def)
  have p: "HasPrefix '':443'' '':''" by (simp add: HasPrefix_def)
  have u: "redirect_URL '':443'' example_req = ''https://example.com:443/o/a.txt''"
    by (simp add: redirect_URL_def HasPrefix_def example_req_def first_part_def)
  have u2: "redirect_URL ''secure.example.org'' example_req = ''https://secure.example.org/o/a.txt''"
    by (simp add: redirect_URL_def HasPrefix_def example_req_def)
  have m: "json_Marshal example_env ((newMessage example_env example_req)\<lparr> StatusCode := StatusMovedPermanently,
       RedirectionURL := redirect_URL '':443'' example_req \<rparr>) = Inr ''GET /o/a.txt ''"
    by (simp add: example_env_def newMessage_def example_req_def)
  have a: "\<forall>c\<in>set (redirect_URL '':443'' example_req). (of_char c :: nat) < 128"
    unfolding u by simp
  note t = redirect_ServeHTTP_run [OF m n]
  have s: "status (respond (redirect_ServeHTTP example_env '':443'' example_req newResponse) newResponse) = 301"
    using t by blast
  have "sentHeader (respond (redirect_ServeHTTP example_env '':443'' example_req newResponse) newResponse)
       ''Location'' = Some [redirect_URL '':443'' example_req]"
    using t a by blast
  then have l: "sentHeader (respond (redirect_ServeHTTP example_env '':443'' example_req newResponse) newResponse)
       ''Location'' = Some [''https://example.com:443/o/a.txt'']"
    by (simp only: u)
  from n p u m s l u2 show ?thesis by blast
qed

text \<open>
  C9. With the HTTPS address \<^verbatim>\<open>:443\<close>, the destination is claimed to be the host part of
  the request's \<^verbatim>\<open>Host\<close> header followed by that port and the request URI. For the header
  \<^verbatim>\<open>[::1]:8080\<close>, whose host part is \<^verbatim>\<open>[::1]\<close>, the first piece of the split at the
  colons is \<^verbatim>\<open>[\<close>: the responder logs and sends the permanent redirect to
  \<^verbatim>\<open>https://[:443/o/a.txt\<close>, not to \<^verbatim>\<open>https://[::1]:443/o/a.txt\<close>.
\<close>

theorem C9_redirect_ipv6_host:
  "Host ipv6_req = ''[::1]:8080'' \<and> RequestURI ipv6_req = ''/o/a.txt'' \<and>
   Split (Host ipv6_req) (CHR '':'') = [''['', [], ''1]'', ''8080''] \<and>
   redirect_URL '':443'' ipv6_req = ''https://[:443/o/a.txt'' \<and>
   RedirectionURL ((newMessage example_env ipv6_req)\<lparr> StatusCode := StatusMovedPermanently,
       RedirectionURL := redirect_URL '':443'' ipv6_req \<rparr>) = ''https://[:443/o/a.txt'' \<and>
   status (respond (redirect_ServeHTTP example_env '':443'' ipv6_req newResponse) newResponse) = 301 \<and>
   sentHeader (respond (redirect_ServeHTTP example_env '':443'' ipv6_req newResponse) newResponse)
       ''Location'' = Some [''https://[:443/o/a.txt'']"
proof -
  have h: "Host ipv6_req = ''[::1]:8080''" "RequestURI ipv6_req = ''/o/a.txt''"
    by (simp_all add: ipv6_req_def example_req_def)
  have sp: "Split (Host ipv6_req) (CHR '':'') = [''['', [], ''1]'', ''8080'']"
    by (simp add: h)
  have u: "redirect_URL '':443'' ipv6_req = ''https://[:443/o/a.txt''"
    by (simp add: redirect_URL_def HasPrefix_def first_part_def sp h)
  have r: "RedirectionURL ((newMessage example_env ipv6_req)\<lparr> StatusCode := StatusMovedPermanently,
       RedirectionURL := redirect_URL '':443'' ipv6_req \<rparr>) = ''https://[:443/o/a.txt''"
    by (simp add: u)
  have m: "json_Marshal example_env ((newMessage example_env ipv6_req)\<lparr> StatusCode := StatusMovedPermanently,
       RedirectionURL := redirect_URL '':443'' ipv6_req \<rparr>) = Inr ''GET /o/a.txt ''"
    by (simp add: example_env_def newMessage_def ipv6_req_def example_req_def)
  have n: "\<not> wroteHeader newResponse" by (simp add: newResponse_def)
  have a: "\<forall>c\<in>set (redirect_URL '':443'' ipv6_req). (of_char c :: nat) < 128"
    unfolding u by simp
  note t = redirect_ServeHTTP_run [OF m n]
  have s: "status (respond (redirect_ServeHTTP example_env '':443'' ipv6_req newResponse) newResponse) = 301"
    using t by blast
  have "sentHeader (respond (redirect_ServeHTTP example_env '':443'' ipv6_req newResponse) newResponse)
       ''Location'' = Some [redirect_URL '':443'' ipv6_req]"
    using t a by blast
  then have l: "sentHeader (respond (redirect_ServeHTTP example_env '':443'' ipv6_req newResponse) newResponse)
       ''Location'' = Some [''https://[:443/o/a.txt'']"
    by (simp only: u)
  from h sp u r s l show ?thesis by blast
qed

section \<open>The dispatch target of a route\<close>

lemma route_target_cases:
  "route_target fmt E target =
     (if HasPrefix target ''/'' then Inr (FileServer target)
      else (case ParseRequestURI E target of
              Some u \<Rightarrow> Inr (ReverseProxy u)
            | None \<Rightarrow> Inl (Errorf fmt [target])))"
  by (auto simp: route_target_def newFileServer_def Let_def HasPrefix_def)

lemma route_handler_bad_target:
  "\<not> HasPrefix (Target route) ''/'' \<Longrightarrow> ParseRequestURI E (Target route) = None \<Longrightarrow>
   route_handler E cfg route =
     Inl (Errorf ''does not know how to handle the Route: %s'' [Target route])"
  by (simp add: route_handler_def route_target_cases)

lemma route_handler_prev_bad_target:
  "\<not> HasPrefix (Target route) ''/'' \<Longrightarrow> ParseRequestURI E (Target route) = None \<Longrightarrow>
   route_handler_prev E cfg route =
     Inl (Errorf ''does not know how to handle the route: %s'' [Target route])"
  by (simp add: route_handler_prev_def route_target_cases)

lemma setupRouter_loop_append:
  "setupRouter_loop E cfg (xs @ ys) st =
     (case setupRouter_loop E cfg xs st of
        Inl err \<Rightarrow> Inl err
      | Inr st' \<Rightarrow> setupRouter_loop E cfg ys st')"
proof (induction xs arbitrary: st)
  case Nil
  then show ?case by (cases st) simp
next
  case (Cons x xs)
  then show ?case by (cases st) (simp split: sum.splits)
qed

lemma setupRouter_loop_fails:
  "route \<in> set routes \<Longrightarrow> route_handler E cfg route = Inl e \<Longrightarrow>
   \<exists>err. setupRouter_loop E cfg routes st = Inl err"
proof (induction routes arbitrary: st)
  case Nil
  then show ?case by simp
next
  case (Cons x xs)
  then show ?case by (cases st) (auto split: sum.splits)
qed

lemma setupRouter_loop_prev_fails:
  "route \<in> set routes \<Longrightarrow> route_handler_prev E cfg route = Inl e \<Longrightarrow>
   \<exists>err. setupRouter_loop_prev E cfg routes router = Inl err"
proof (induction routes arbitrary: router)
  case Nil
  then show ?case by simp
next
  case (Cons x xs)
  then show ?case by (auto split: sum.splits)
qed

text \<open>
  C7. For a route of the configuration, the handler is chosen from the target string
  alone: a target that begins with a slash gives the file server rooted at the target;
  any other target that \<^verbatim>\<open>url.ParseRequestURI\<close> accepts gives the reverse proxy for the
  parsed URL; a target of neither form gives the error that names the target, and then
  \<^verbatim>\<open>setupRouter\<close> returns an error and no router, in both revisions. When the routes
  before it have been set up, the error returned is this one.
\<close>

theorem C7_dispatch_by_target:
  assumes "route \<in> set (Routes cfg)"
  shows
    "(HasPrefix (Target route) ''/'' \<longrightarrow>
        route_target fmt E (Target route) = Inr (FileServer (Target route))) \<and>
     (\<not> HasPrefix (Target route) ''/'' \<longrightarrow>
        (case ParseRequestURI E (Target route) of
           Some u \<Rightarrow> route_target fmt E (Target route) = Inr (ReverseProxy u)
         | None \<Rightarrow>
             route_target fmt E (Target route) = Inl (Errorf fmt [Target route]) \<and>
             (\<exists>err. setupRouter E cfg = Inl err) \<and>
             (\<exists>err. setupRouter_prev E cfg = Inl err) \<and>
             (\<forall>pre post st.
                Routes cfg = pre @ route # post \<and>
                setupRouter_loop E cfg pre ([], False) = Inr st \<longrightarrow>
                setupRouter E cfg =
                  Inl (Errorf ''does not know how to handle the Route: %s'' [Target route]))))"
proof (intro conjI impI)
  assume "HasPrefix (Target route) ''/''"
  then show "route_target fmt E (Target route) = Inr (FileServer (Target route))"
    by (simp add: route_target_cases)
next
  assume np: "\<not> HasPrefix (Target route) ''/''"
  show "case ParseRequestURI E (Target route) of
           Some u \<Rightarrow> route_target fmt E (Target route) = Inr (ReverseProxy u)
         | None \<Rightarrow>
             route_target fmt E (Target route) = Inl (Errorf fmt [Target route]) \<and>
             (\<exists>err. setupRouter E cfg = Inl err) \<and>
             (\<exists>err. setupRouter_prev E cfg = Inl err) \<and>
             (\<forall>pre post st.
                Routes cfg = pre @ route # post \<and>
                setupRouter_loop E cfg pre ([], False) = Inr st \<longrightarrow>
                setupRouter E cfg =
                  Inl (Errorf ''does not know how to handle the Route: %s'' [Target route]))"
  proof (cases "ParseRequestURI E (Target route)")
    case (Some u)
    with np show ?thesis by (simp add: route_target_cases)
  next
    case None
    have 1: "route_target fmt E (Target route) = Inl (Errorf fmt [Target route])"
      using np None by (simp add: route_target_cases)
    from setupRouter_loop_fails [OF assms route_handler_bad_target [OF np None]]
    obtain err where "setupRouter_loop E cfg (Routes cfg) ([], False) = Inl err"
      by blast
    then have 2: "\<exists>err. setupRouter E cfg = Inl err"
      by (simp add: setupRouter_def)
    from setupRouter_loop_prev_fails [OF assms route_handler_prev_bad_target [OF np None]]
    obtain err' where "setupRouter_loop_prev E cfg (Routes cfg) [] = Inl err'"
      by blast
    then have 3: "\<exists>err. setupRouter_prev E cfg = Inl err"
      by (simp add: setupRouter_prev_def)
    have 4: "setupRouter E cfg =
               Inl (Errorf ''does not know how to handle the Route: %s'' [Target route])"
      if "Routes cfg = pre @ route # post" "setupRouter_loop E cfg pre ([], False) = Inr st"
      for pre post st
    proof -
      have "setupRouter_loop E cfg (route # post) st =
              Inl (Errorf ''does not know how to handle the Route: %s'' [Target route])"
        by (cases st) (simp add: route_handler_bad_target [OF np None])
      then show ?thesis
        using that by (simp add: setupRouter_def setupRouter_loop_append)
    qed
    from 1 2 3 4 None show ?thesis by simp
  qed
qed


lemma example_bad_target:
  "\<not> HasPrefix (Target bad_route) ''/'' \<and> ParseRequestURI example_env (Target bad_route) = None"
  by (simp add: bad_route_def HasPrefix_def example_env_def)

lemma example_public_route_handler:
  "route_handler example_env (example_cfg rs) public_route =
     Inr (AuthHandler \<lparr> All_reg = False, Authenticate = (\<lambda>u pw. (False, ''unknown user'', None)) \<rparr>
            (LoggingHandler ''/o/'' ''/srv/www'' (FileServer ''/srv/www'')))"
  by (simp add: route_handler_def route_target_cases public_route_def HasPrefix_def
      example_env_def authMap_of_def)

theorem C7_dispatch_by_target_witness:
  "bad_route \<in> set (Routes (example_cfg [public_route, bad_route])) \<and>
   \<not> HasPrefix (Target bad_route) ''/'' \<and>
   ParseRequestURI example_env (Target bad_route) = None \<and>
   route_target ''%s'' example_env (Target bad_route) = Inl (Errorf ''%s'' [''ftp'']) \<and>
   (\<exists>err. setupRouter example_env (example_cfg [public_route, bad_route]) = Inl err) \<and>
   setupRouter example_env (example_cfg [public_route, bad_route]) =
     Inl (Errorf ''does not know how to handle the Route: %s'' [''ftp'']) \<and>
   route_target ''%s'' example_env (Target public_route) = Inr (FileServer ''/srv/www'') \<and>
   route_target ''%s'' example_env (Target root_route) =
     Inr (ReverseProxy \<lparr> Scheme = ''http'', URLHost = ''127.0.0.1:8055/'', Path = [], RawQuery = [] \<rparr>)"
proof -
  let ?cfg = "example_cfg [public_route, bad_route]"
  have i: "bad_route \<in> set (Routes ?cfg)" by (simp add: example_cfg_def)
  note b = example_bad_target
  have t: "Target bad_route = ''ftp''" by (simp add: bad_route_def)
  note c = C7_dispatch_by_target [OF i, of "''%s''" example_env, THEN conjunct2, rule_format,
      OF b [THEN conjunct1]]
  note c' = c [unfolded b [THEN conjunct2] option.case]
  have 1: "route_target ''%s'' example_env (Target bad_route) = Inl (Errorf ''%s'' [''ftp''])"
    using c' [THEN conjunct1] by (simp only: t)
  have 2: "\<exists>err. setupRouter example_env ?cfg = Inl err"
    by (rule c' [THEN conjunct2, THEN conjunct1])
  have "\<exists>st. setupRouter_loop example_env ?cfg [public_route] ([], False) = Inr st"
    by (simp add: example_public_route_handler) (auto simp: mux_Handle_def public_route_def)
  then obtain st where l: "setupRouter_loop example_env ?cfg [public_route] ([], False) = Inr st"
    by blast
  have r: "Routes ?cfg = [public_route] @ bad_route # []" by (simp add: example_cfg_def)
  have 3: "setupRouter example_env ?cfg =
     Inl (Errorf ''does not know how to handle the Route: %s'' [''ftp''])"
    using c' [THEN conjunct2, THEN conjunct2, THEN conjunct2, rule_format,
        of "[public_route]" "[]" st] r l
    by (simp only: t)
  have 4: "route_target ''%s'' example_env (Target public_route) = Inr (FileServer ''/srv/www'')"
    by (simp add: route_target_cases public_route_def HasPrefix_def)
  have 5: "route_target ''%s'' example_env (Target root_route) =
     Inr (ReverseProxy \<lparr> Scheme = ''http'', URLHost = ''127.0.0.1:8055/'', Path = [], RawQuery = [] \<rparr>)"
    by (simp add: route_target_cases root_route_def HasPrefix_def example_env_def)
  from i b 1 2 3 4 5 show ?thesis by blast
qed

section \<open>The auth decorator of a route\<close>

lemma collect_auths_result:
  "collect_auths cfgAuths ids (auths, needsAuth) = Inr (auths', needsAuth') \<Longrightarrow>
   map Some auths' = map Some auths @ map (lookup_auth cfgAuths) ids \<and>
   (needsAuth' \<longleftrightarrow>
      needsAuth \<or> (\<exists>authID\<in>set ids. \<exists>a. lookup_auth cfgAuths authID = Some a \<and> Username a \<noteq> []))"
proof (induction ids arbitrary: auths needsAuth)
  case Nil
  then show ?case by simp
next
  case (Cons authID ids)
  show ?case
  proof (cases "lookup_auth cfgAuths authID")
    case None
    with Cons.prems show ?thesis by simp
  next
    case (Some a)
    with Cons.prems have
      "collect_auths cfgAuths ids (auths @ [a], if Username a \<noteq> [] then True else needsAuth) =
         Inr (auths', needsAuth')"
      by simp
    from Cons.IH [OF this] Some show ?thesis by auto
  qed
qed

lemma StripPrefix_has_prefix:
  "pfx \<noteq> [] \<Longrightarrow> HasPrefix (Path (URL req)) pfx \<Longrightarrow>
   StripPrefix_ServeHTTP pfx h req w =
     filter (\<lambda>ev. \<not> is_assignment ev)
       (h (req\<lparr> URL := (URL req)\<lparr> Path := drop (length pfx) (Path (URL req)) \<rparr> \<rparr>) w)"
  by (auto simp: StripPrefix_ServeHTTP_def TrimPrefix_def Let_def HasPrefix_def prefix_def)

text \<open>
  C8. In the revision that decides it in \<^verbatim>\<open>setupRouter\<close> itself: when the handler of a
  route is built, it holds an auth handler if and only if one of the credentials the
  route's identifiers resolve to has a non-empty user name. With the auth handler, it
  holds all the resolved credentials and wraps the logging handler around the dispatch
  target. Without it (no identifiers, or empty user names only), the handler is the logging
  handler around the dispatch target: every request runs the dispatch target first and
  nothing after it sets a challenge header, and behind the prefix stripping a request
  under the prefix reaches it with the prefix cut off (the run behind the prefix stripping
  is the handler's, without its assignments to the copy of the request).
\<close>

theorem C8_auth_decorator_iff:
  assumes "route_handler_prev E cfg route = Inr h"
  shows
    "(auth_decorated h \<longleftrightarrow>
        (\<exists>authID\<in>set (AuthIDs route). \<exists>a.
            lookup_auth (Auths cfg) authID = Some a \<and> Username a \<noteq> [])) \<and>
     (\<exists>d. route_target ''does not know how to handle the route: %s'' E (Target route) = Inr d \<and>
          \<not> auth_decorated d \<and>
          (if auth_decorated h
           then \<exists>auths. h = AuthHandler_prev auths (LoggingHandler (Prefix route) (Target route) d) \<and>
                  map Some auths = map (lookup_auth (Auths cfg)) (AuthIDs route)
           else h = LoggingHandler (Prefix route) (Target route) d \<and>
                (\<forall>req w. ServeHTTP E h req w =
                   loggingHandler_ServeHTTP E (Prefix route) (Target route) (ServeHTTP E d) req w) \<and>
                (\<forall>req w. \<exists>evs. ServeHTTP E h req w = ServeHTTP E d req w @ evs \<and>
                   (\<forall>ev\<in>set evs. ev \<noteq> SetHeader ''WWW-Authenticate'' basic_realm)) \<and>
                (\<forall>req w. Prefix route \<noteq> [] \<and> HasPrefix (Path (URL req)) (Prefix route) \<longrightarrow>
                   ServeHTTP E (http_StripPrefix (Prefix route) h) req w =
                   filter (\<lambda>ev. \<not> is_assignment ev)
                     (ServeHTTP E h
                        (req\<lparr> URL := (URL req)\<lparr> Path := drop (length (Prefix route)) (Path (URL req)) \<rparr> \<rparr>)
                        w))))"
proof -
  from assms obtain d auths needsAuth where
    d: "route_target ''does not know how to handle the route: %s'' E (Target route) = Inr d"
    and c: "collect_auths (Auths cfg) (AuthIDs route) ([], False) = Inr (auths, needsAuth)"
    and h: "h = (if needsAuth then AuthHandler_prev auths (LoggingHandler (Prefix route) (Target route) d)
                 else LoggingHandler (Prefix route) (Target route) d)"
    by (auto simp: route_handler_prev_def Let_def split: sum.splits prod.splits)
  have nd: "\<not> auth_decorated d"
    using d by (auto simp: route_target_cases split: if_splits option.splits)
  from collect_auths_result [OF c]
  have a: "map Some auths = map (lookup_auth (Auths cfg)) (AuthIDs route)"
    and n: "needsAuth \<longleftrightarrow> (\<exists>authID\<in>set (AuthIDs route). \<exists>a.
            lookup_auth (Auths cfg) authID = Some a \<and> Username a \<noteq> [])"
    by simp_all
  have dec: "auth_decorated h \<longleftrightarrow> needsAuth"
    using h nd by simp
  have 1: "auth_decorated h \<longleftrightarrow>
        (\<exists>authID\<in>set (AuthIDs route). \<exists>a.
            lookup_auth (Auths cfg) authID = Some a \<and> Username a \<noteq> [])"
    using dec n by simp
  have tail: "\<exists>evs. loggingHandler_ServeHTTP E p t f req w = f req w @ evs \<and>
                 (\<forall>ev\<in>set evs. ev \<noteq> SetHeader ''WWW-Authenticate'' basic_realm)"
    for p t f req w
    by (cases "json_Marshal E ((newMessage E (request_after (f req w) req))
                                 \<lparr> Prefix_msg := p, Target_msg := t,
                                   StatusCode := lrw_statusCode (f req w) \<rparr>)")
       (auto simp: loggingHandler_ServeHTTP_def Let_def marshal_failed_def http_Error_def)
  have 2: "if auth_decorated h
           then \<exists>auths. h = AuthHandler_prev auths (LoggingHandler (Prefix route) (Target route) d) \<and>
                  map Some auths = map (lookup_auth (Auths cfg)) (AuthIDs route)
           else h = LoggingHandler (Prefix route) (Target route) d \<and>
                (\<forall>req w. ServeHTTP E h req w =
                   loggingHandler_ServeHTTP E (Prefix route) (Target route) (ServeHTTP E d) req w) \<and>
                (\<forall>req w. \<exists>evs. ServeHTTP E h req w = ServeHTTP E d req w @ evs \<and>
                   (\<forall>ev\<in>set evs. ev \<noteq> SetHeader ''WWW-Authenticate'' basic_realm)) \<and>
                (\<forall>req w. Prefix route \<noteq> [] \<and> HasPrefix (Path (URL req)) (Prefix route) \<longrightarrow>
                   ServeHTTP E (http_StripPrefix (Prefix route) h) req w =
                   filter (\<lambda>ev. \<not> is_assignment ev)
                     (ServeHTTP E h
                        (req\<lparr> URL := (URL req)\<lparr> Path := drop (length (Prefix route)) (Path (URL req)) \<rparr> \<rparr>)
                        w))"
  proof (cases needsAuth)
    case True
    with h a dec show ?thesis by simp
  next
    case False
    with h have hh: "h = LoggingHandler (Prefix route) (Target route) d" by simp
    have nda: "\<not> auth_decorated h" using dec False by simp
    have s: "ServeHTTP E h req w =
               loggingHandler_ServeHTTP E (Prefix route) (Target route) (ServeHTTP E d) req w"
      for req w
      by (simp add: hh)
    have t: "\<exists>evs. ServeHTTP E h req w = ServeHTTP E d req w @ evs \<and>
                   (\<forall>ev\<in>set evs. ev \<noteq> SetHeader ''WWW-Authenticate'' basic_realm)"
      for req w
      unfolding s by (rule tail)
    have p: "ServeHTTP E (http_StripPrefix (Prefix route) h) req w =
                   filter (\<lambda>ev. \<not> is_assignment ev)
                     (ServeHTTP E h
                        (req\<lparr> URL := (URL req)\<lparr> Path := drop (length (Prefix route)) (Path (URL req)) \<rparr> \<rparr>)
                        w)"
      if "Prefix route \<noteq> [] \<and> HasPrefix (Path (URL req)) (Prefix route)" for req w
      using that by (simp add: http_StripPrefix_def StripPrefix_has_prefix)
    from nda hh s t p show ?thesis by simp
  qed
  from 1 d nd 2 show ?thesis by blast
qed


lemma example_lookup_everybody:
  "lookup_auth (Auths (example_cfg rs)) ''everybody'' = Some everybody"
  by (simp add: lookup_auth_def example_cfg_def example_auths_def)

lemma example_lookup_bob:
  "lookup_auth (Auths (example_cfg rs)) ''bob'' = Some bob"
  by (simp add: lookup_auth_def example_cfg_def example_auths_def)

lemma example_public_route_handler_prev:
  "route_handler_prev example_env (example_cfg rs) public_route =
     Inr (LoggingHandler ''/o/'' ''/srv/www'' (FileServer ''/srv/www''))"
proof -
  have "collect_auths (Auths (example_cfg rs)) [''everybody''] ([], False) = Inr ([everybody], False)"
    by (simp add: example_lookup_everybody) (simp add: everybody_def)
  then show ?thesis
    by (simp add: route_handler_prev_def route_target_cases public_route_def HasPrefix_def)
qed

lemma example_mixed_route_handler_prev:
  "route_handler_prev example_env (example_cfg rs) mixed_route =
     Inr (AuthHandler_prev [everybody, bob] (LoggingHandler ''/m/'' ''/srv/www'' (FileServer ''/srv/www'')))"
proof -
  have "collect_auths (Auths (example_cfg rs)) [''everybody'', ''bob''] ([], False) =
          Inr ([everybody, bob], True)"
    by (simp add: example_lookup_everybody example_lookup_bob) (simp add: everybody_def bob_def)
  then show ?thesis
    by (simp add: route_handler_prev_def route_target_cases mixed_route_def HasPrefix_def)
qed

lemma example_serve_public:
  "ServeHTTP example_env
     (http_StripPrefix ''/o/'' (LoggingHandler ''/o/'' ''/srv/www'' (FileServer ''/srv/www'')))
     example_req newResponse =
   [WriteHeader 200, Write ''/srv/www/a.txt'', LogOut (''%s'' @ [CHR 0x0A]) [Str ''GET /a.txt '']]"
  by (simp add: http_StripPrefix_def StripPrefix_ServeHTTP_def TrimPrefix_def HasPrefix_def
      example_req_def loggingHandler_ServeHTTP_def fileServer_ServeHTTP_def fileServer_name_def
      Join_def FromSlash_def Clean_def clean_elem_def example_env_def newMessage_def
      lrw_statusCode_def lrw_step_def Let_def fileServer_assign_def assign_step_def)

theorem C8_auth_decorator_iff_witness:
  "route_handler_prev example_env (example_cfg [public_route]) public_route =
     Inr (LoggingHandler ''/o/'' ''/srv/www'' (FileServer ''/srv/www'')) \<and>
   \<not> auth_decorated (LoggingHandler ''/o/'' ''/srv/www'' (FileServer ''/srv/www'')) \<and>
   \<not> (\<exists>authID\<in>set (AuthIDs public_route). \<exists>a.
         lookup_auth (Auths (example_cfg [public_route])) authID = Some a \<and> Username a \<noteq> []) \<and>
   ServeHTTP example_env
     (http_StripPrefix ''/o/'' (LoggingHandler ''/o/'' ''/srv/www'' (FileServer ''/srv/www'')))
     example_req newResponse =
   [WriteHeader 200, Write ''/srv/www/a.txt'', LogOut (''%s'' @ [CHR 0x0A]) [Str ''GET /a.txt '']] \<and>
   route_handler_prev example_env (example_cfg [mixed_route]) mixed_route =
     Inr (AuthHandler_prev [everybody, bob] (LoggingHandler ''/m/'' ''/srv/www'' (FileServer ''/srv/www''))) \<and>
   (\<exists>authID\<in>set (AuthIDs mixed_route). \<exists>a.
         lookup_auth (Auths (example_cfg [mixed_route])) authID = Some a \<and> Username a \<noteq> [])"
proof -
  note p = example_public_route_handler_prev [of "[public_route]"]
  note m = example_mixed_route_handler_prev [of "[mixed_route]"]
  have nd: "\<not> auth_decorated (LoggingHandler ''/o/'' ''/srv/www'' (FileServer ''/srv/www''))"
    by simp
  have d: "auth_decorated (AuthHandler_prev [everybody, bob]
             (LoggingHandler ''/m/'' ''/srv/www'' (FileServer ''/srv/www'')))"
    by simp
  have 1: "\<not> (\<exists>authID\<in>set (AuthIDs public_route). \<exists>a.
         lookup_auth (Auths (example_cfg [public_route])) authID = Some a \<and> Username a \<noteq> [])"
    using C8_auth_decorator_iff [OF p, THEN conjunct1] nd by blast
  have 2: "\<exists>authID\<in>set (AuthIDs mixed_route). \<exists>a.
         lookup_auth (Auths (example_cfg [mixed_route])) authID = Some a \<and> Username a \<noteq> []"
    using C8_auth_decorator_iff [OF m, THEN conjunct1] d by blast
  from p nd 1 example_serve_public m 2 show ?thesis by blast
qed

section \<open>The fallback for the root\<close>

lemma mux_Handle_Inr:
  "mux_Handle mux p h = Inr mux' \<Longrightarrow>
   mux' = mux @ [(p, h)] \<and> p \<noteq> [] \<and> p \<notin> fst ` set mux"
  by (auto simp: mux_Handle_def map_of_eq_None_iff split: if_splits)

lemma mux_Handle_fresh:
  "p \<noteq> [] \<Longrightarrow> p \<notin> fst ` set mux \<Longrightarrow> mux_Handle mux p h = Inr (mux @ [(p, h)])"
  by (auto simp: mux_Handle_def map_of_eq_None_iff)

lemma setupRouter_loop_result:
  "setupRouter_loop E cfg routes (router, hr) = Inr (router', hr') \<Longrightarrow>
   (hr' \<longleftrightarrow> hr \<or> (\<exists>r\<in>set routes. Prefix r = ''/'')) \<and>
   (\<exists>hs. router' = router @ hs \<and> list_all2 (registered E cfg) routes hs) \<and>
   (distinct (map fst router) \<longrightarrow> distinct (map fst router'))"
proof (induction routes arbitrary: router hr)
  case Nil
  then show ?case by simp
next
  case (Cons r routes)
  from Cons.prems obtain h mux where
    h: "route_handler E cfg r = Inr h"
    and m: "mux_Handle router (Prefix r) (http_StripPrefix (Prefix r) h) = Inr mux"
    and l: "setupRouter_loop E cfg routes (mux, if Prefix r = ''/'' then True else hr) =
              Inr (router', hr')"
    by (auto split: sum.splits)
  from mux_Handle_Inr [OF m] have
    mux: "mux = router @ [(Prefix r, http_StripPrefix (Prefix r) h)]"
    and ne: "Prefix r \<noteq> []" and fr: "Prefix r \<notin> fst ` set router"
    by simp_all
  have reg: "registered E cfg r (Prefix r, http_StripPrefix (Prefix r) h)"
    using h ne by (simp add: registered_def http_StripPrefix_def)
  from Cons.IH [OF l] obtain hs where
    1: "hr' \<longleftrightarrow> (if Prefix r = ''/'' then True else hr) \<or> (\<exists>r\<in>set routes. Prefix r = ''/'')"
    and 2: "router' = mux @ hs" and 3: "list_all2 (registered E cfg) routes hs"
    and 4: "distinct (map fst mux) \<longrightarrow> distinct (map fst router')"
    by blast
  have a: "hr' \<longleftrightarrow> hr \<or> (\<exists>x\<in>set (r # routes). Prefix x = ''/'')"
    using 1 by auto
  have b: "\<exists>hs'. router' = router @ hs' \<and> list_all2 (registered E cfg) (r # routes) hs'"
    using 2 3 mux reg
    by (intro exI [of _ "(Prefix r, http_StripPrefix (Prefix r) h) # hs"]) simp
  have c: "distinct (map fst router) \<longrightarrow> distinct (map fst router')"
    using 4 mux fr by auto
  from a b c show ?case by blast
qed

lemma list_all2_left: "list_all2 P xs ys \<Longrightarrow> x \<in> set xs \<Longrightarrow> \<exists>y\<in>set ys. P x y"
  by (induction rule: list_all2_induct) auto

lemma list_all2_right: "list_all2 P xs ys \<Longrightarrow> y \<in> set ys \<Longrightarrow> \<exists>x\<in>set xs. P x y"
  by (induction rule: list_all2_induct) auto

lemma registered_not_fallback: "registered E cfg r e \<Longrightarrow> snd e \<noteq> NotFoundFunc \<and> fst e = Prefix r"
  by (auto simp: registered_def)

lemma notFound_run:
  assumes "json_Marshal E ((newMessage E req)\<lparr> Error_msg := ''not found'',
                               StatusCode := StatusNotFound \<rparr>) = Inr bb"
    and "\<not> wroteHeader w"
  shows "ServeHTTP E NotFoundFunc req w =
           LogErr (''%s'' @ [CHR 0x0A]) [Str bb] # http_Error ''Not found'' 404 \<and>
         status (respond (ServeHTTP E NotFoundFunc req w) w) = 404"
  using assms
  by (simp add: notFound_ServeHTTP_def Let_def StatusNotFound_def http_Error_def writeHeader_def)

text \<open>
  C6. In the current revision, when the loop over the routes has registered every route,
  \<^verbatim>\<open>setupRouter\<close> returns a router, whether or not a route has the prefix \<^verbatim>\<open>/\<close>. The
  fallback function is registered, for the pattern \<^verbatim>\<open>/\<close>, if and only if no route has
  that prefix; when a route has it, the pattern \<^verbatim>\<open>/\<close> belongs to the handler of such a
  route. The fallback function logs the record with the error text on the error logger and
  answers 404 (when the record marshals and the writer is fresh).
\<close>

theorem C6_root_fallback:
  assumes "setupRouter_loop E cfg (Routes cfg) ([], False) = Inr (router0, handledRoot)"
  shows "\<exists>router. setupRouter E cfg = Inr router \<and>
           ((''/'', NotFoundFunc) \<in> set router \<longleftrightarrow> \<not> (\<exists>r\<in>set (Routes cfg). Prefix r = ''/'')) \<and>
           (if \<exists>r\<in>set (Routes cfg). Prefix r = ''/''
            then \<exists>r\<in>set (Routes cfg). \<exists>h. Prefix r = ''/'' \<and> route_handler E cfg r = Inr h \<and>
                   map_of router ''/'' = Some (StripPrefix ''/'' h)
            else map_of router ''/'' = Some NotFoundFunc) \<and>
           (\<forall>req w bb.
              json_Marshal E ((newMessage E req)\<lparr> Error_msg := ''not found'',
                               StatusCode := StatusNotFound \<rparr>) = Inr bb \<and> \<not> wroteHeader w \<longrightarrow>
              ServeHTTP E NotFoundFunc req w =
                LogErr (''%s'' @ [CHR 0x0A]) [Str bb] # http_Error ''Not found'' 404 \<and>
              status (respond (ServeHTTP E NotFoundFunc req w) w) = 404)"
proof -
  from setupRouter_loop_result [OF assms] have
    hr: "handledRoot \<longleftrightarrow> (\<exists>r\<in>set (Routes cfg). Prefix r = ''/'')"
    and reg: "list_all2 (registered E cfg) (Routes cfg) router0"
    and dis: "distinct (map fst router0)"
    by simp_all
  have fst0: "fst ` set router0 = Prefix ` set (Routes cfg)"
  proof -
    have "map fst router0 = map Prefix (Routes cfg)"
      using reg by (induction rule: list_all2_induct) (auto dest: registered_not_fallback)
    then have "set (map fst router0) = set (map Prefix (Routes cfg))" by simp
    then show ?thesis by simp
  qed
  have nf0: "(''/'', NotFoundFunc) \<notin> set router0"
  proof
    assume "(''/'', NotFoundFunc) \<in> set router0"
    with reg obtain r where "registered E cfg r (''/'', NotFoundFunc)"
      by (blast dest: list_all2_right)
    then show False by (auto dest: registered_not_fallback)
  qed
  have nf: "\<forall>req w bb.
              json_Marshal E ((newMessage E req)\<lparr> Error_msg := ''not found'',
                               StatusCode := StatusNotFound \<rparr>) = Inr bb \<and> \<not> wroteHeader w \<longrightarrow>
              ServeHTTP E NotFoundFunc req w =
                LogErr (''%s'' @ [CHR 0x0A]) [Str bb] # http_Error ''Not found'' 404 \<and>
              status (respond (ServeHTTP E NotFoundFunc req w) w) = 404"
    using notFound_run by blast
  show ?thesis
  proof (cases handledRoot)
    case True
    then have s: "setupRouter E cfg = Inr router0"
      using assms by (simp add: setupRouter_def)
    from True hr obtain r where r: "r \<in> set (Routes cfg)" "Prefix r = ''/''" by blast
    from reg r(1) obtain e where e: "e \<in> set router0" "registered E cfg r e"
      by (blast dest: list_all2_left)
    then obtain h where h: "route_handler E cfg r = Inr h" "e = (''/'', StripPrefix ''/'' h)"
      using r(2) by (auto simp: registered_def)
    have "map_of router0 ''/'' = Some (StripPrefix ''/'' h)"
      using dis e(1) h(2) by simp
    with r h have own: "\<exists>r\<in>set (Routes cfg). \<exists>h. Prefix r = ''/'' \<and> route_handler E cfg r = Inr h \<and>
                   map_of router0 ''/'' = Some (StripPrefix ''/'' h)"
      by blast
    have ex: "\<exists>r\<in>set (Routes cfg). Prefix r = ''/''" using r by blast
    show ?thesis
      apply (rule exI [of _ router0])
      apply (simp only: s ex nf0 if_True)
      using own nf apply blast
      done
  next
    case False
    with hr have no: "\<not> (\<exists>r\<in>set (Routes cfg). Prefix r = ''/'')" by simp
    then have "''/'' \<notin> fst ` set router0"
      unfolding fst0 by force
    then have h: "mux_Handle router0 ''/'' NotFoundFunc = Inr (router0 @ [(''/'', NotFoundFunc)])"
      and m0: "map_of router0 ''/'' = None"
      by (simp_all add: mux_Handle_fresh map_of_eq_None_iff)
    have s: "setupRouter E cfg = Inr (router0 @ [(''/'', NotFoundFunc)])"
      using assms False h by (simp add: setupRouter_def)
    have m: "map_of (router0 @ [(''/'', NotFoundFunc)]) ''/'' = Some NotFoundFunc"
      using m0 by (simp add: map_add_def)
    have i: "(''/'', NotFoundFunc) \<in> set (router0 @ [(''/'', NotFoundFunc)])" by simp
    show ?thesis
      apply (rule exI [of _ "router0 @ [(''/'', NotFoundFunc)]"])
      apply (simp only: s no i m if_False)
      using nf apply blast
      done
  qed
qed


lemma example_root_route_handler:
  "route_handler example_env (example_cfg rs) root_route =
     Inr (LoggingHandler ''/'' ''http://127.0.0.1:8055/''
            (ReverseProxy \<lparr> Scheme = ''http'', URLHost = ''127.0.0.1:8055/'', Path = [], RawQuery = [] \<rparr>))"
  by (simp add: route_handler_def route_target_cases root_route_def HasPrefix_def
      example_env_def authMap_of_def)

lemma example_root_route_handler_prev:
  "route_handler_prev example_env (example_cfg rs) root_route =
     Inr (LoggingHandler ''/'' ''http://127.0.0.1:8055/''
            (ReverseProxy \<lparr> Scheme = ''http'', URLHost = ''127.0.0.1:8055/'', Path = [], RawQuery = [] \<rparr>))"
  by (simp add: route_handler_prev_def route_target_cases root_route_def HasPrefix_def
      example_env_def)

lemma example_root_loop:
  "setupRouter_loop example_env (example_cfg [root_route]) (Routes (example_cfg [root_route])) ([], False) =
     Inr ([(''/'', StripPrefix ''/'' (LoggingHandler ''/'' ''http://127.0.0.1:8055/''
            (ReverseProxy \<lparr> Scheme = ''http'', URLHost = ''127.0.0.1:8055/'', Path = [], RawQuery = [] \<rparr>)))],
          True)"
  by (simp add: example_cfg_def example_root_route_handler [unfolded example_cfg_def])
     (simp add: root_route_def mux_Handle_def http_StripPrefix_def)

text \<open>
  The previous revision registers the fallback for \<^verbatim>\<open>/\<close> without a test: with a route
  of that prefix the registration panics.
\<close>

lemma setupRouter_prev_root_route_panics:
  "setupRouter_prev example_env (example_cfg [root_route]) =
     Inl (Panic ''http: multiple registrations for /'')"
  by (simp add: setupRouter_prev_def example_cfg_def
        example_root_route_handler_prev [unfolded example_cfg_def])
     (simp add: root_route_def mux_Handle_def http_StripPrefix_def)

theorem C6_root_fallback_witness:
  "setupRouter_loop example_env (example_cfg [root_route]) (Routes (example_cfg [root_route])) ([], False) =
     Inr ([(''/'', StripPrefix ''/'' (LoggingHandler ''/'' ''http://127.0.0.1:8055/''
            (ReverseProxy \<lparr> Scheme = ''http'', URLHost = ''127.0.0.1:8055/'', Path = [], RawQuery = [] \<rparr>)))],
          True) \<and>
   (\<exists>router. setupRouter example_env (example_cfg [root_route]) = Inr router \<and>
      (''/'', NotFoundFunc) \<notin> set router) \<and>
   setupRouter example_env (example_cfg [root_route]) =
     Inr [(''/'', StripPrefix ''/'' (LoggingHandler ''/'' ''http://127.0.0.1:8055/''
            (ReverseProxy \<lparr> Scheme = ''http'', URLHost = ''127.0.0.1:8055/'', Path = [], RawQuery = [] \<rparr>)))] \<and>
   root_route \<in> set (Routes (example_cfg [root_route])) \<and> Prefix root_route = ''/''"
proof -
  note l = example_root_loop
  have r: "root_route \<in> set (Routes (example_cfg [root_route]))" "Prefix root_route = ''/''"
    by (simp_all add: example_cfg_def root_route_def)
  from C6_root_fallback [OF l] obtain router where
    s: "setupRouter example_env (example_cfg [root_route]) = Inr router"
    and n: "(''/'', NotFoundFunc) \<in> set router \<longleftrightarrow>
              \<not> (\<exists>r\<in>set (Routes (example_cfg [root_route])). Prefix r = ''/'')"
    by blast
  from n r have "(''/'', NotFoundFunc) \<notin> set router" by blast
  with s have 1: "\<exists>router. setupRouter example_env (example_cfg [root_route]) = Inr router \<and>
      (''/'', NotFoundFunc) \<notin> set router"
    by blast
  have 2: "setupRouter example_env (example_cfg [root_route]) =
     Inr [(''/'', StripPrefix ''/'' (LoggingHandler ''/'' ''http://127.0.0.1:8055/''
            (ReverseProxy \<lparr> Scheme = ''http'', URLHost = ''127.0.0.1:8055/'', Path = [], RawQuery = [] \<rparr>)))]"
    unfolding setupRouter_def l by simp
  from l 1 2 r show ?thesis by blast
qed

section \<open>Password verification\<close>

lemma AcceptMd5_no_prefix: "AcceptMd5 h = Inr None \<longleftrightarrow> \<not> HasPrefix h ''$apr1$''"
  by (auto simp: AcceptMd5_def SplitN2_def split: list.splits)

lemma AcceptMd5_no_prefixD: "\<not> HasPrefix h ''$apr1$'' \<Longrightarrow> AcceptMd5 h = Inr None"
  by (simp add: AcceptMd5_def)

lemma AcceptMd5_prefix_cases:
  "HasPrefix h ''$apr1$'' \<Longrightarrow>
   (\<exists>m. AcceptMd5 h = Inr (Some m)) \<or> AcceptMd5 h = Inl (Errorf ''malformed md5 password: %s'' [h])"
  by (auto simp: AcceptMd5_def SplitN2_def split: list.splits)

lemma parse_failure_no_prefix:
  "\<not> HasPrefix (PasswordHash a) ''$apr1$'' \<Longrightarrow> parse_failure username a = []"
  using AcceptMd5_no_prefix [of "PasswordHash a"] by (simp add: parse_failure_def)

lemma parse_failure_grants: "grants E username passw a \<Longrightarrow> parse_failure username a = []"
  by (auto simp: grants_def password_verifies_def parse_failure_def AcceptMd5_no_prefixD
      split: if_splits sum.splits option.splits)

lemma auth_loop_grant:
  "grants E username passw a \<Longrightarrow> auth_loop E username passw (a # auths) = (True, [])"
  by (auto simp: grants_def password_verifies_def MatchesPassword_def AcceptMd5_no_prefixD
      split: if_splits sum.splits option.splits)

lemma auth_loop_no_grant:
  "\<not> grants E username passw a \<Longrightarrow>
   auth_loop E username passw (a # auths) =
     (fst (auth_loop E username passw auths),
      parse_failure username a @ snd (auth_loop E username passw auths))"
proof (cases "username = Username a")
  case False
  then show ?thesis by (simp add: parse_failure_def)
next
  case u: True
  assume ng: "\<not> grants E username passw a"
  show ?thesis
  proof (cases "AcceptMd5 (PasswordHash a)")
    case (Inl err)
    with u show ?thesis
      by (simp add: parse_failure_def split: prod.splits)
  next
    case (Inr r)
    show ?thesis
    proof (cases r)
      case None
      with Inr have "\<not> HasPrefix (PasswordHash a) ''$apr1$''"
        by (simp add: AcceptMd5_no_prefix)
      with ng u have "CompareHashAndPassword E (PasswordHash a) passw \<noteq> None"
        by (simp add: grants_def password_verifies_def)
      with u Inr None show ?thesis
        by (auto simp: parse_failure_def)
    next
      case (Some m)
      with Inr have "HasPrefix (PasswordHash a) ''$apr1$''"
        using AcceptMd5_no_prefix [of "PasswordHash a"] by auto
      with ng u Inr Some have "\<not> MatchesPassword E m passw"
        by (simp add: grants_def password_verifies_def MatchesPassword_def)
      with u Inr Some show ?thesis
        by (simp add: parse_failure_def)
    qed
  qed
qed

lemma auth_loop_none:
  "\<forall>a\<in>set auths. \<not> grants E username passw a \<Longrightarrow>
   auth_loop E username passw auths = (False, parse_failures username auths)"
proof (induction auths)
  case Nil
  then show ?case by (simp add: parse_failures_def)
next
  case (Cons a auths)
  then have ng: "\<not> grants E username passw a" and
    ih: "auth_loop E username passw auths = (False, parse_failures username auths)"
    by simp_all
  show ?case
    using auth_loop_no_grant [OF ng, of auths] ih
    by (simp add: parse_failures_def del: auth_loop.simps)
qed

lemma auth_loop_first:
  "\<forall>b\<in>set pre. \<not> grants E username passw b \<Longrightarrow> grants E username passw a \<Longrightarrow>
   auth_loop E username passw (pre @ a # post) = (True, parse_failures username pre)"
proof (induction pre)
  case Nil
  then show ?case
    using auth_loop_grant [of E username passw a post]
    by (simp add: parse_failures_def del: auth_loop.simps)
next
  case (Cons b pre)
  then have ng: "\<not> grants E username passw b" and
    ih: "auth_loop E username passw (pre @ a # post) = (True, parse_failures username pre)"
    by simp_all
  show ?case
    using auth_loop_no_grant [OF ng, of "pre @ a # post"] ih
    by (simp add: parse_failures_def del: auth_loop.simps)
qed

lemma auth_loop_iff:
  "fst (auth_loop E username passw auths) \<longleftrightarrow> (\<exists>a\<in>set auths. grants E username passw a)"
proof (cases "\<exists>a\<in>set auths. grants E username passw a")
  case False
  then show ?thesis by (simp add: auth_loop_none)
next
  case True
  then obtain pre a post where "auths = pre @ a # post" "grants E username passw a"
    "\<forall>b\<in>set pre. \<not> grants E username passw b"
    by (metis split_list_first_prop)
  then show ?thesis using True by (simp add: auth_loop_first del: auth_loop.simps)
qed

text \<open>
  C5, as the code has it. The loop over the candidate credentials ends with \<^verbatim>\<open>ok\<close> true
  if and only if some candidate grants: its user name is the submitted one and the password
  verifies under the scheme of its hash, salted MD5 for the prefix \<^verbatim>\<open>$apr1$\<close> and bcrypt
  for every other hash. The loop stops at the first candidate that grants: the result and
  the log are those of the candidates before it, whatever follows. A candidate that does
  not grant is passed over. A hash with the prefix \<^verbatim>\<open>$apr1$\<close> that does not parse makes its
  candidate fail and is logged; a hash without the prefix is never logged, also when bcrypt
  cannot parse it.
\<close>

theorem C5_verification_loop:
  "(fst (auth_loop E username passw auths) \<longleftrightarrow> (\<exists>a\<in>set auths. grants E username passw a)) \<and>
   (\<forall>pre a post.
      auths = pre @ a # post \<and> grants E username passw a \<and>
      (\<forall>b\<in>set pre. \<not> grants E username passw b) \<longrightarrow>
      auth_loop E username passw auths = (True, parse_failures username pre)) \<and>
   ((\<forall>a\<in>set auths. \<not> grants E username passw a) \<longrightarrow>
      auth_loop E username passw auths = (False, parse_failures username auths)) \<and>
   (\<forall>a. username = Username a \<and> HasPrefix (PasswordHash a) ''$apr1$'' \<and>
        (\<forall>m. AcceptMd5 (PasswordHash a) \<noteq> Inr (Some m)) \<longrightarrow>
        \<not> grants E username passw a \<and>
        parse_failure username a =
          [LogErr ''Failed to parse the password hash: %#v: %s''
             [Str (PasswordHash a), Err (Errorf ''malformed md5 password: %s'' [PasswordHash a])]]) \<and>
   (\<forall>a. \<not> HasPrefix (PasswordHash a) ''$apr1$'' \<longrightarrow> parse_failure username a = [])"
proof -
  have 4: "\<not> grants E username passw a \<and>
        parse_failure username a =
          [LogErr ''Failed to parse the password hash: %#v: %s''
             [Str (PasswordHash a), Err (Errorf ''malformed md5 password: %s'' [PasswordHash a])]]"
    if "username = Username a \<and> HasPrefix (PasswordHash a) ''$apr1$'' \<and>
        (\<forall>m. AcceptMd5 (PasswordHash a) \<noteq> Inr (Some m))" for a
  proof -
    from that AcceptMd5_prefix_cases [of "PasswordHash a"]
    have "AcceptMd5 (PasswordHash a) = Inl (Errorf ''malformed md5 password: %s'' [PasswordHash a])"
      by blast
    with that show ?thesis
      by (simp add: grants_def password_verifies_def parse_failure_def)
  qed
  show ?thesis
    using auth_loop_iff [of E username passw auths] auth_loop_first [of _ E username passw]
      auth_loop_none [of auths E username passw] 4 parse_failure_no_prefix [of _ username]
    by blast
qed


lemma example_grants_bob: "grants example_env ''bob'' ''secret'' bob"
  by (simp add: grants_def password_verifies_def bob_def AcceptMd5_def HasPrefix_def
      TrimPrefix_def SplitN2_def example_env_def)

lemma example_no_grant_malformed: "\<not> grants example_env ''bob'' ''secret'' bob_malformed_md5"
  by (simp add: grants_def password_verifies_def bob_malformed_md5_def AcceptMd5_def HasPrefix_def
      TrimPrefix_def SplitN2_def)

lemma example_parse_failure_malformed:
  "parse_failures ''bob'' [bob_malformed_md5] =
     [LogErr ''Failed to parse the password hash: %#v: %s''
        [Str ''$apr1$nodollar'', Err (Errorf ''malformed md5 password: %s'' [''$apr1$nodollar''])]]"
  by (simp add: parse_failures_def parse_failure_def bob_malformed_md5_def AcceptMd5_def
      HasPrefix_def TrimPrefix_def SplitN2_def)

theorem C5_verification_loop_witness:
  "grants example_env ''bob'' ''secret'' bob \<and>
   \<not> grants example_env ''bob'' ''secret'' bob_malformed_md5 \<and>
   auth_loop example_env ''bob'' ''secret'' [bob_malformed_md5, bob, everybody] =
     (True, [LogErr ''Failed to parse the password hash: %#v: %s''
        [Str ''$apr1$nodollar'', Err (Errorf ''malformed md5 password: %s'' [''$apr1$nodollar''])]]) \<and>
   fst (auth_loop example_env ''bob'' ''secret'' [bob_malformed_md5, bob, everybody])"
proof -
  note g = example_grants_bob
  note n = example_no_grant_malformed
  have p: "\<forall>b\<in>set [bob_malformed_md5]. \<not> grants example_env ''bob'' ''secret'' b"
    using n by simp
  have e: "[bob_malformed_md5, bob, everybody] = [bob_malformed_md5] @ bob # [everybody]"
    by simp
  note c = C5_verification_loop [of example_env "''bob''" "''secret''"
      "[bob_malformed_md5, bob, everybody]"]
  from c [THEN conjunct2, THEN conjunct1, rule_format, of "[bob_malformed_md5]" bob "[everybody]"]
    e g p
  have "auth_loop example_env ''bob'' ''secret'' [bob_malformed_md5, bob, everybody] =
          (True, parse_failures ''bob'' [bob_malformed_md5])"
    by blast
  then have 1: "auth_loop example_env ''bob'' ''secret'' [bob_malformed_md5, bob, everybody] =
     (True, [LogErr ''Failed to parse the password hash: %#v: %s''
        [Str ''$apr1$nodollar'', Err (Errorf ''malformed md5 password: %s'' [''$apr1$nodollar''])]])"
    by (simp only: example_parse_failure_malformed)
  then have 2: "fst (auth_loop example_env ''bob'' ''secret'' [bob_malformed_md5, bob, everybody])"
    by (simp only: fst_conv)
  from g n 1 2 show ?thesis by blast
qed

text \<open>
  C5 as stated has every hash that fails to parse under its scheme logged. The hash
  \<^verbatim>\<open>garbage\<close> has no prefix \<^verbatim>\<open>$apr1$\<close>, bcrypt refuses it as too short, and the loop
  logs nothing.
\<close>

theorem C5_bcrypt_parse_failure_not_logged:
  "Username bob_garbage = ''bob'' \<and>
   \<not> HasPrefix (PasswordHash bob_garbage) ''$apr1$'' \<and>
   CompareHashAndPassword example_env (PasswordHash bob_garbage) ''pw'' = Some ErrHashTooShort \<and>
   auth_loop example_env ''bob'' ''pw'' [bob_garbage] = (False, [])"
  by (simp add: bob_garbage_def HasPrefix_def CompareHashAndPassword_def AcceptMd5_def)

section \<open>A credential with an empty user name beside another\<close>

lemma mixed_route_handler_prev:
  "route_handler_prev E (example_cfg rs) mixed_route =
     Inr (AuthHandler_prev [everybody, bob] (LoggingHandler ''/m/'' ''/srv/www'' (FileServer ''/srv/www'')))"
proof -
  have "collect_auths (Auths (example_cfg rs)) [''everybody'', ''bob''] ([], False) =
          Inr ([everybody, bob], True)"
    by (simp add: example_lookup_everybody example_lookup_bob) (simp add: everybody_def bob_def)
  then show ?thesis
    by (simp add: route_handler_prev_def route_target_cases mixed_route_def HasPrefix_def)
qed

text \<open>
  C1. A credential with an empty user name is claimed to grant every request, before any
  hash is compared. The route \<open>mixed_route\<close> lists such a credential beside the one of
  \<^verbatim>\<open>bob\<close>; its configuration passes validation. The previous revision, which verifies
  credentials in \<^verbatim>\<open>main.go\<close> itself, builds an auth handler for it that holds both
  credentials, the loop ends with \<^verbatim>\<open>ok == false\<close> for \<^verbatim>\<open>alice\<close>, and the request is
  answered by the rejection. Submitted with the empty user name, the credential is matched
  and its hash is compared (and refused).
\<close>

theorem C1_empty_username_credential_denied:
  "Username everybody = [] \<and>
   Validate (example_cfg [mixed_route]) = None \<and>
   route_handler_prev E (example_cfg [mixed_route]) mixed_route =
     Inr (AuthHandler_prev [everybody, bob]
            (LoggingHandler ''/m/'' ''/srv/www'' (FileServer ''/srv/www''))) \<and>
   auth_loop E ''alice'' ''pw'' [everybody, bob] = (False, []) \<and>
   ServeHTTP E (AuthHandler_prev [everybody, bob] h)
       (req\<lparr> BasicAuth := Some (''alice'', ''pw'') \<rparr>) w =
     unauthorized E (req\<lparr> BasicAuth := Some (''alice'', ''pw'') \<rparr>)
       ''auth not accepted (user: alice)'' ''Provided basic auth not accepted'' \<and>
   auth_loop E [] ''pw'' [everybody] = (False, [])"
proof -
  have 1: "Username everybody = []" by (simp add: everybody_def)
  have 2: "Validate (example_cfg [mixed_route]) = None"
    by (simp add: Validate_def example_cfg_def mixed_route_def example_auths_def useSSL_def)
  have 4: "auth_loop E ''alice'' ''pw'' [everybody, bob] = (False, [])"
    by (simp add: everybody_def bob_def)
  have 5: "ServeHTTP E (AuthHandler_prev [everybody, bob] h)
       (req\<lparr> BasicAuth := Some (''alice'', ''pw'') \<rparr>) w =
     unauthorized E (req\<lparr> BasicAuth := Some (''alice'', ''pw'') \<rparr>)
       ''auth not accepted (user: alice)'' ''Provided basic auth not accepted''"
    unfolding ServeHTTP.simps authHandler_prev_ServeHTTP_def
    by (simp add: 4 del: auth_loop.simps)
  have 6: "auth_loop E [] ''pw'' [everybody] = (False, [])"
    by (simp add: everybody_def AcceptMd5_def HasPrefix_def CompareHashAndPassword_def)
  from 1 2 mixed_route_handler_prev [of E "[mixed_route]"] 4 5 6 show ?thesis by blast
qed

end
